theory Spec2Isabelle
  imports Complex_Main
begin

section \<open>Python values and control flow\<close>

text \<open>
  Exceptions of the Python program are values: every function that can raise returns
  \<open>py_error + 'a\<close>, with \<open>Inl\<close> carrying the exception.
\<close>

datatype py_error =
    ValueError
  | TypeError
  | IndexError
  | FileNotFoundError
  | FileExistsError
  | NotADirectoryError
  | IsADirectoryError
  | UnidentifiedImageError
  | SystemError
  | OSError

text \<open>
  \<open>range(start, stop, step)\<close>: ascending for a positive step, descending for a
  negative one, \<open>ValueError\<close> for step zero.
\<close>

function range_up :: "int \<Rightarrow> int \<Rightarrow> int \<Rightarrow> int list" where
  "range_up i stop step =
     (if 0 < step \<and> i < stop then i # range_up (i + step) stop step else [])"
  by pat_completeness auto
termination
  by (relation "measure (\<lambda>(i, stop, step). nat (stop - i))") auto

function range_down :: "int \<Rightarrow> int \<Rightarrow> int \<Rightarrow> int list" where
  "range_down i stop step =
     (if step < 0 \<and> stop < i then i # range_down (i + step) stop step else [])"
  by pat_completeness auto
termination
  by (relation "measure (\<lambda>(i, stop, step). nat (i - stop))") auto

declare range_up.simps [simp del] range_down.simps [simp del]

definition py_range :: "int \<Rightarrow> int \<Rightarrow> int \<Rightarrow> py_error + int list" where
  "py_range start stop step =
     (if step = 0 then Inl ValueError
      else if 0 < step then Inr (range_up start stop step)
      else Inr (range_down start stop step))"

text \<open>
  A \<open>for\<close> loop over a list whose body updates a state and may raise: the first
  exception ends the loop.
\<close>

fun for_loop :: "'a list \<Rightarrow> ('a \<Rightarrow> 's \<Rightarrow> py_error + 's) \<Rightarrow> 's \<Rightarrow> py_error + 's" where
  "for_loop [] body s = Inr s"
| "for_loop (x # xs) body s =
     (case body x s of Inl e \<Rightarrow> Inl e | Inr s' \<Rightarrow> for_loop xs body s')"

section \<open>Strings\<close>

text \<open>
  \<open>s.split(sep)\<close> for a separator of one character, and \<open>s.split(sep)[0]\<close>, the
  part of \<open>s\<close> before the first separator (all of \<open>s\<close> when there is none).
\<close>

fun py_split :: "char \<Rightarrow> string \<Rightarrow> string list" where
  "py_split sep [] = [[]]"
| "py_split sep (c # cs) =
     (if c = sep then [] # py_split sep cs
      else (case py_split sep cs of [] \<Rightarrow> [[c]] | p # ps \<Rightarrow> (c # p) # ps))"

definition py_split_0 :: "char \<Rightarrow> string \<Rightarrow> string" where
  "py_split_0 sep s = (case py_split sep s of [] \<Rightarrow> [] | p # ps \<Rightarrow> p)"

definition py_startswith :: "string \<Rightarrow> string \<Rightarrow> bool" where
  "py_startswith s pre = (take (length pre) s = pre)"

definition py_endswith :: "string \<Rightarrow> string \<Rightarrow> bool" where
  "py_endswith s suf = (length suf \<le> length s \<and> drop (length s - length suf) s = suf)"

text \<open>\<open>str(n)\<close> for an integer: decimal digits, most significant first, with a sign.\<close>

definition digit_char :: "nat \<Rightarrow> char" where
  "digit_char d = ''0123456789'' ! d"

function str_nat :: "nat \<Rightarrow> string" where
  "str_nat n = (if n < 10 then [digit_char n] else str_nat (n div 10) @ [digit_char (n mod 10)])"
  by pat_completeness auto
termination
  by (relation "measure (\<lambda>n. n)") auto

declare str_nat.simps [simp del]

definition str_int :: "int \<Rightarrow> string" where
  "str_int i = (if i < 0 then CHR ''-'' # str_nat (nat (- i)) else str_nat (nat i))"

text \<open>
  The format specification \<open>0>4\<close> of \<open>f'{x:0>4}'\<close>: the text of \<open>x\<close>, right
  aligned in a field of width 4 filled with \<open>0\<close>; a longer text is kept whole.
\<close>

definition format_0gt4 :: "int \<Rightarrow> string" where
  "format_0gt4 x = (let s = str_int x in replicate (4 - length s) (CHR ''0'') @ s)"

text \<open>
  The number a string of decimal digits denotes, as \<open>int(s)\<close> reads it: the inverse
  of \<open>str\<close> on the natural numbers, whatever zeros stand in front.
\<close>

definition digit_value :: "char \<Rightarrow> nat" where
  "digit_value c = length (takeWhile (\<lambda>d. d \<noteq> c) ''0123456789'')"

definition nat_of_digits :: "string \<Rightarrow> nat" where
  "nat_of_digits s = foldl (\<lambda>a c. 10 * a + digit_value c) 0 s"

text \<open>\<open>os.path.join(a, b)\<close> and \<open>os.path.dirname(p)\<close> of \<open>posixpath\<close>.\<close>

type_synonym path = string

definition join :: "path \<Rightarrow> path \<Rightarrow> path" where
  "join a b =
     (if py_startswith b ''/'' then b
      else if a = [] \<or> py_endswith a ''/'' then a @ b
      else a @ ''/'' @ b)"

definition dirname :: "path \<Rightarrow> path" where
  "dirname p =
     (let head = rev (dropWhile (\<lambda>c. c \<noteq> CHR ''/'') (rev p))
      in if head \<noteq> [] \<and> \<not> list_all (\<lambda>c. c = CHR ''/'') head
         then rev (dropWhile (\<lambda>c. c = CHR ''/'') (rev head))
         else head)"

section \<open>Images\<close>

text \<open>
  An image as the program sees it through Pillow: its mode, its size, the
  \<open>transparency\<close> entry of its \<open>info\<close> dictionary when there is one, and its pixel
  values row by row, as \<open>getdata()\<close> lists them. A pixel of a single-band mode is an
  integer, a pixel of a multi-band mode is the tuple of its channels (floating-point
  pixels of mode \<open>F\<close> are not modelled). The \<open>transparency\<close> entry of a palette image
  is a palette index, or a byte string holding one alpha value per palette entry.
\<close>

datatype pixel = Scalar int | Channels "int list"

datatype info_value = InfoInt int | InfoBytes "nat list"

record image =
  mode :: string
  xsize :: int
  ysize :: int
  transparency :: "info_value option"
  pixel_data :: "pixel list"

text \<open>The number of bands of a mode.\<close>

definition bands :: "string \<Rightarrow> nat" where
  "bands m =
     (if m \<in> set [''LA'', ''PA'', ''La''] then 2
      else if m \<in> set [''RGB'', ''YCbCr'', ''LAB'', ''HSV''] then 3
      else if m \<in> set [''RGBA'', ''CMYK'', ''RGBX'', ''RGBa''] then 4
      else 1)"

text \<open>
  The invariant of an image: the pixel list has one value per position, a single-band
  pixel is an integer (a palette index is a byte) and a multi-band pixel has one channel
  per band.
\<close>

fun wf_pixel :: "string \<Rightarrow> pixel \<Rightarrow> bool" where
  "wf_pixel m (Scalar v) = (bands m = 1 \<and> (if m = ''P'' then 0 \<le> v \<and> v < 256 else True))"
| "wf_pixel m (Channels cs) = (1 < bands m \<and> length cs = bands m)"

definition wf_image :: "image \<Rightarrow> bool" where
  "wf_image img =
     (0 \<le> xsize img \<and> 0 \<le> ysize img \<and>
      int (length (pixel_data img)) = xsize img * ysize img \<and>
      list_all (wf_pixel (mode img)) (pixel_data img))"

definition getdata :: "image \<Rightarrow> pixel list" where
  "getdata img = pixel_data img"

text \<open>
  \<open>getcolors()\<close>: the (count, value) pairs of the values in use, or \<open>None\<close> when
  there are more than 256 of them. For the modes \<open>1\<close>, \<open>L\<close> and \<open>P\<close> Pillow reads
  them off the 256-bin histogram, in the order of the values, and so never answers
  \<open>None\<close>.
\<close>

definition getcolors :: "image \<Rightarrow> (nat \<times> pixel) list option" where
  "getcolors img =
     (if mode img \<in> set [''1'', ''L'', ''P'']
      then Some (map (\<lambda>i. (count_list (pixel_data img) (Scalar (int i)), Scalar (int i)))
                  (filter (\<lambda>i. count_list (pixel_data img) (Scalar (int i)) \<noteq> 0) [0..<256]))
      else (let cs = remdups (pixel_data img)
            in if 256 < length cs then None
               else Some (map (\<lambda>c. (count_list (pixel_data img) c, c)) cs)))"

text \<open>
  \<open>getextrema()\<close> of a multi-band image: one (min, max) pair per band. Pillow answers
  \<open>None\<close> for a band that has no pixel.
\<close>

fun channel :: "nat \<Rightarrow> pixel \<Rightarrow> int" where
  "channel k (Scalar v) = v"
| "channel k (Channels cs) = (if k < length cs then cs ! k else 0)"

fun band_extrema :: "int list \<Rightarrow> (int \<times> int) option" where
  "band_extrema [] = None"
| "band_extrema (v # vs) = Some (fold min vs v, fold max vs v)"

definition getextrema :: "image \<Rightarrow> (int \<times> int) option list" where
  "getextrema img =
     map (\<lambda>k. band_extrema (map (channel k) (pixel_data img))) [0..<bands (mode img)]"

text \<open>\<open>xs[i]\<close> for \<open>i \<ge> 0\<close>.\<close>

definition py_index :: "'a list \<Rightarrow> nat \<Rightarrow> py_error + 'a" where
  "py_index xs i = (if i < length xs then Inr (xs ! i) else Inl IndexError)"

text \<open>
  \<open>index == transparent\<close> and \<open>pixel == 0\<close>: an integer equals an integer of the same
  value; a tuple never equals an integer, and an integer never equals a byte string.
\<close>

fun py_eq_info :: "pixel \<Rightarrow> info_value \<Rightarrow> bool" where
  "py_eq_info (Scalar v) (InfoInt t) = (v = t)"
| "py_eq_info p t = False"

fun py_eq_0 :: "pixel \<Rightarrow> bool" where
  "py_eq_0 (Scalar v) = (v = 0)"
| "py_eq_0 (Channels cs) = False"

section \<open>\<open>has_transparency\<close>\<close>

text \<open>
  \<open>has_transparency(img)\<close> (lines 33 to 53). It returns the decision together with the
  one line it prints on the way; an exception leaves both out.
\<close>

definition has_transparency :: "image \<Rightarrow> py_error + (bool \<times> string)" where
  "has_transparency img =
     (let pixels = getdata img;
          by_mode =
            (if mode img = ''P'' then
               (let transparent =
                      (case transparency img of None \<Rightarrow> InfoInt (- 1) | Some t \<Rightarrow> t)
                in case getcolors img of
                     None \<Rightarrow> Inl TypeError
                   | Some colors \<Rightarrow>
                       Inr (list_ex (\<lambda>(_, index). py_eq_info index transparent) colors,
                            ''Transparency detected in tile. P-mode detected.''))
             else if mode img = ''RGBA'' then
               (case py_index (getextrema img) 3 of
                  Inl e \<Rightarrow> Inl e
                | Inr None \<Rightarrow> Inl TypeError
                | Inr (Some (lo, hi)) \<Rightarrow>
                    Inr (lo < 255, ''Transparency detected in tile. RGBA image detected.''))
             else Inr (False, []))
      in case by_mode of
           Inl e \<Rightarrow> Inl e
         | Inr (found, line) \<Rightarrow>
             if found then Inr (True, line)
             else if list_ex py_eq_0 pixels
             then Inr (True, ''Transparency detected in tile. 0-value pixel detected.'')
             else Inr (False, ''Transparency NOT detected in tile.''))"

text \<open>The value \<open>has_transparency\<close> returns, without the line it prints.\<close>

definition transparent :: "image \<Rightarrow> py_error + bool" where
  "transparent img =
     (case has_transparency img of Inl e \<Rightarrow> Inl e | Inr (found, line) \<Rightarrow> Inr found)"

section \<open>Cropping\<close>

text \<open>
  \<open>img.crop((left, upper, right, lower))\<close>: Pillow refuses a box whose right or lower
  edge lies before its left or upper edge. The result has the size of the box, the far
  edges excluded; it keeps the mode and the \<open>info\<close> of the image, and a position of
  the box outside the image holds the zero value of the mode.
\<close>

definition zero_pixel :: "string \<Rightarrow> pixel" where
  "zero_pixel m = (if bands m = 1 then Scalar 0 else Channels (replicate (bands m) 0))"

definition pixel_at :: "image \<Rightarrow> int \<Rightarrow> int \<Rightarrow> pixel" where
  "pixel_at img cx cy =
     (if 0 \<le> cx \<and> cx < xsize img \<and> 0 \<le> cy \<and> cy < ysize img
        \<and> nat (cy * xsize img + cx) < length (pixel_data img)
      then pixel_data img ! nat (cy * xsize img + cx)
      else zero_pixel (mode img))"

definition crop_region :: "image \<Rightarrow> int \<Rightarrow> int \<Rightarrow> int \<Rightarrow> int \<Rightarrow> image" where
  "crop_region img left upper right lower =
     (let w = nat (right - left); h = nat (lower - upper)
      in \<lparr> mode = mode img,
           xsize = right - left,
           ysize = lower - upper,
           transparency = transparency img,
           pixel_data =
             map (\<lambda>k. pixel_at img (left + int (k mod w)) (upper + int (k div w)))
               [0..<w * h] \<rparr>)"

definition crop :: "image \<Rightarrow> int \<times> int \<times> int \<times> int \<Rightarrow> py_error + image" where
  "crop img box =
     (case box of (left, upper, right, lower) \<Rightarrow>
        if right < left then Inl ValueError
        else if lower < upper then Inl ValueError
        else Inr (crop_region img left upper right lower))"

section \<open>The file system and the terminal\<close>

text \<open>
  The part of the world the program touches: the directories, the files with their
  contents, and the lines printed so far. A path names a file or a directory as it is
  written (no normalisation, no links), every existing directory can be written to, and
  the current directory, the parent of a path without a slash, always exists.
\<close>

datatype content = ImageFile image | OtherFile

record world =
  dirs :: "path list"
  files :: "(path \<times> content) list"
  stdout :: "string list"

definition print_line :: "string \<Rightarrow> world \<Rightarrow> world" where
  "print_line s w = w\<lparr>stdout := stdout w @ [s]\<rparr>"

definition isdir :: "world \<Rightarrow> path \<Rightarrow> bool" where
  "isdir w p = (p \<in> set (dirs w))"

definition isfile :: "world \<Rightarrow> path \<Rightarrow> bool" where
  "isfile w p = (map_of (files w) p \<noteq> None)"

definition parent_exists :: "world \<Rightarrow> path \<Rightarrow> bool" where
  "parent_exists w p = (dirname p = [] \<or> isdir w (dirname p))"

definition write_file :: "path \<Rightarrow> content \<Rightarrow> world \<Rightarrow> world" where
  "write_file p f w = w\<lparr>files := (p, f) # filter (\<lambda>e. fst e \<noteq> p) (files w)\<rparr>"

text \<open>\<open>os.mkdir\<close> raises when it cannot create the directory.\<close>

definition mkdir :: "path \<Rightarrow> world \<Rightarrow> py_error + world" where
  "mkdir p w =
     (if isdir w p \<or> isfile w p then Inl FileExistsError
      else if \<not> parent_exists w p then Inl FileNotFoundError
      else Inr (w\<lparr>dirs := dirs w @ [p]\<rparr>))"

definition remove :: "path \<Rightarrow> world \<Rightarrow> py_error + world" where
  "remove p w =
     (if isdir w p then Inl IsADirectoryError
      else if \<not> isfile w p then Inl FileNotFoundError
      else Inr (w\<lparr>files := filter (\<lambda>e. fst e \<noteq> p) (files w)\<rparr>))"

text \<open>\<open>os.listdir(d)\<close>: the names of the entries directly under \<open>d\<close>.\<close>

definition child_name :: "path \<Rightarrow> path \<Rightarrow> string option" where
  "child_name d p =
     (let pre = (if d = [] \<or> py_endswith d ''/'' then d else d @ ''/'');
          n = drop (length pre) p
      in if py_startswith p pre \<and> n \<noteq> [] \<and> CHR ''/'' \<notin> set n then Some n else None)"

definition listdir :: "world \<Rightarrow> path \<Rightarrow> py_error + string list" where
  "listdir w d =
     (if isdir w d
      then Inr (remdups (List.map_filter (child_name d) (map fst (files w) @ dirs w)))
      else if isfile w d then Inl NotADirectoryError
      else Inl FileNotFoundError)"

text \<open>
  \<open>Image.open(path)\<close>, and \<open>img.save(path)\<close> for a path ending in \<open>.png\<close>: the file
  is opened for writing first, then the PNG encoder runs; it refuses the modes PNG
  cannot hold and an image without pixels.
\<close>

definition image_open :: "world \<Rightarrow> path \<Rightarrow> py_error + image" where
  "image_open w p =
     (case map_of (files w) p of
        None \<Rightarrow> if isdir w p then Inl IsADirectoryError else Inl FileNotFoundError
      | Some OtherFile \<Rightarrow> Inl UnidentifiedImageError
      | Some (ImageFile img) \<Rightarrow> Inr img)"

definition png_modes :: "string list" where
  "png_modes = [''1'', ''L'', ''LA'', ''I'', ''I;16'', ''I;16B'', ''P'', ''RGB'', ''RGBA'']"

definition image_save :: "image \<Rightarrow> path \<Rightarrow> world \<Rightarrow> py_error + world" where
  "image_save img p w =
     (if isdir w p then Inl IsADirectoryError
      else if \<not> parent_exists w p then Inl FileNotFoundError
      else if mode img \<notin> set png_modes then Inl OSError
      else if xsize img = 0 \<or> ysize img = 0 then Inl SystemError
      else Inr (write_file p (ImageFile img) w))"

section \<open>\<open>cut_tiles\<close>\<close>

definition converted_suffix :: string where
  "converted_suffix = ''_GEXD''"

definition converted_format :: string where
  "converted_format = ''png''"

definition tile_format :: string where
  "tile_format = ''png''"

text \<open>
  Line 65: the box handed to \<open>crop\<close> for the origin \<open>(x, y)\<close>. Lines 66 to 69: the
  name of the tile.
\<close>

definition crop_box :: "int \<Rightarrow> int \<Rightarrow> int \<Rightarrow> int \<times> int \<times> int \<times> int" where
  "crop_box x y tile_size = (x, y, x + (tile_size - 1), y + (tile_size - 1))"

definition tile_name :: "string \<Rightarrow> int \<Rightarrow> int \<Rightarrow> string" where
  "tile_name filename x y =
     (let x_f = format_0gt4 x;
          y_f = format_0gt4 y;
          suffix = ''_'' @ x_f @ ''_'' @ y_f
      in py_split_0 (CHR ''.'') filename @ suffix)"

definition tile_path :: "path \<Rightarrow> string \<Rightarrow> int \<Rightarrow> int \<Rightarrow> path" where
  "tile_path output_dir filename x y =
     join output_dir (tile_name filename x y @ ''.'' @ tile_format)"

text \<open>
  The body of the inner loop (lines 65 to 84). The loop state is \<open>tile_count\<close>,
  \<open>should_save_tile\<close> and the world. The global \<open>debug\<close> is a parameter.
\<close>

type_synonym cut_state = "int \<times> bool \<times> world"

definition cut_tile ::
  "bool \<Rightarrow> image \<Rightarrow> string \<Rightarrow> path \<Rightarrow> int \<Rightarrow> bool \<Rightarrow> int \<Rightarrow> int \<Rightarrow> cut_state
     \<Rightarrow> py_error + cut_state" where
  "cut_tile debug img filename output_dir tile_size no_alpha x y st =
     (case st of (tile_count, should_save_tile, w) \<Rightarrow>
      case crop img (crop_box x y tile_size) of
        Inl e \<Rightarrow> Inl e
      | Inr tile \<Rightarrow>
          (case (if no_alpha
                 then (case has_transparency tile of
                         Inl e \<Rightarrow> Inl e
                       | Inr (found, line) \<Rightarrow> Inr (\<not> found, print_line line w))
                 else Inr (should_save_tile, w)) of
             Inl e \<Rightarrow> Inl e
           | Inr (should_save_tile', w1) \<Rightarrow>
               if should_save_tile' then
                 (let w2 = (if debug
                            then print_line (''DEBUG: saving tile '' @ tile_name filename x y
                                               @ ''.'' @ tile_format) w1
                            else w1)
                  in case image_save tile (tile_path output_dir filename x y) w2 of
                       Inl e \<Rightarrow> Inl e
                     | Inr w3 \<Rightarrow> Inr (tile_count + 1, should_save_tile', w3))
               else Inr (tile_count, should_save_tile', w1)))"

text \<open>\<open>cut_tiles\<close> (lines 56 to 86) returns the tile count and the world it leaves.\<close>

definition cut_tiles ::
  "bool \<Rightarrow> path \<Rightarrow> string \<Rightarrow> path \<Rightarrow> int \<Rightarrow> bool \<Rightarrow> world \<Rightarrow> py_error + (int \<times> world)" where
  "cut_tiles debug input_dir filename output_dir tile_size no_alpha w =
     (let w0 = print_line (''Cutting tiles from '' @ filename) w;
          filepath = join input_dir filename
      in case image_open w0 filepath of
           Inl e \<Rightarrow> Inl e
         | Inr img \<Rightarrow>
             (case py_range 0 (xsize img) tile_size of
                Inl e \<Rightarrow> Inl e
              | Inr xs \<Rightarrow>
                  (case for_loop xs
                          (\<lambda>x st. case py_range 0 (ysize img) tile_size of
                                     Inl e \<Rightarrow> Inl e
                                   | Inr ys \<Rightarrow>
                                       for_loop ys
                                         (cut_tile debug img filename output_dir tile_size
                                            no_alpha x) st)
                          (0, True, w0) of
                     Inl e \<Rightarrow> Inl e
                   | Inr (tile_count, should_save_tile, w') \<Rightarrow> Inr (tile_count, w'))))"

text \<open>
  The origins visited by the two nested loops of \<open>cut_tiles\<close> (lines 63 and 64):
  \<open>for x in range(0, width, tile_size): for y in range(0, height, tile_size)\<close>,
  in the order the loops visit them. The outer \<open>range\<close> is built first, so a tile size
  of zero raises before anything else happens; the inner \<open>range\<close> is only built when the
  outer one is not empty.
\<close>

definition grid_origins :: "int \<Rightarrow> int \<Rightarrow> int \<Rightarrow> py_error + (int \<times> int) list" where
  "grid_origins width height tile_size =
     (case py_range 0 width tile_size of
        Inl e \<Rightarrow> Inl e
      | Inr xs \<Rightarrow>
          if xs = [] then Inr []
          else (case py_range 0 height tile_size of
                  Inl e \<Rightarrow> Inl e
                | Inr ys \<Rightarrow> Inr (List.product xs ys)))"

text \<open>
  The tile cut at an origin (the crop of line 65, which cannot fail for a tile size of at
  least 1), and the decision of lines 71 to 75 for it.
\<close>

definition tile_at :: "image \<Rightarrow> int \<Rightarrow> int \<Rightarrow> int \<Rightarrow> image" where
  "tile_at img tile_size x y =
     crop_region img x y (x + (tile_size - 1)) (y + (tile_size - 1))"

definition accepts :: "bool \<Rightarrow> image \<Rightarrow> bool" where
  "accepts no_alpha tile = (if no_alpha then transparent tile = Inr False else True)"

section \<open>\<open>convert_geotiff\<close>\<close>

text \<open>
  \<open>re.search(r'Max=([0-9]*[.][0-9]*),([0-9]*[.][0-9]*)', output)\<close>: the two groups
  of the leftmost match. After \<open>Max=\<close> each number is a longest run of digits, a dot
  and a longest run of digits; giving back digits never helps the match, since the
  character after a shorter run is a digit, where the pattern wants the dot or the
  comma.
\<close>

definition is_digit :: "char \<Rightarrow> bool" where
  "is_digit c = (c \<in> set ''0123456789'')"

definition match_number :: "string \<Rightarrow> (string \<times> string) option" where
  "match_number s =
     (case dropWhile is_digit s of
        [] \<Rightarrow> None
      | c # r \<Rightarrow>
          if c = CHR ''.''
          then Some (takeWhile is_digit s @ ''.'' @ takeWhile is_digit r, dropWhile is_digit r)
          else None)"

definition match_here :: "string \<Rightarrow> (string \<times> string) option" where
  "match_here s =
     (if py_startswith s ''Max='' then
        (case match_number (drop 4 s) of
           None \<Rightarrow> None
         | Some (g1, r) \<Rightarrow>
             (case r of
                [] \<Rightarrow> None
              | c # r' \<Rightarrow>
                  if c = CHR '',''
                  then (case match_number r' of None \<Rightarrow> None | Some (g2, r'') \<Rightarrow> Some (g1, g2))
                  else None))
      else None)"

fun re_search :: "string \<Rightarrow> (string \<times> string) option" where
  "re_search [] = None"
| "re_search (c # cs) =
     (case match_here (c # cs) of Some m \<Rightarrow> Some m | None \<Rightarrow> re_search cs)"

text \<open>
  What the program gets from outside: \<open>os.popen(cmd).read()\<close> runs a command, which
  answers with its output and may change the file system; \<open>math.floor(float(s))\<close> is
  floating-point arithmetic; \<open>img.resize(size)\<close> resamples. The three are parameters.
\<close>

record env =
  popen_read :: "string \<Rightarrow> world \<Rightarrow> string \<times> world"
  floor_float :: "string \<Rightarrow> py_error + int"
  resize :: "image \<Rightarrow> int \<times> int \<Rightarrow> py_error + image"

text \<open>
  \<open>convert_geotiff\<close> (lines 89 to 130) returns the name of the converted file, or
  \<open>None\<close>, and the world it leaves. \<open>int(width / 2)\<close> is \<open>width div 2\<close> for a width
  that is not negative.
\<close>

definition output_filename :: "string \<Rightarrow> string" where
  "output_filename filename =
     py_split_0 (CHR ''.'') filename @ converted_suffix @ ''.'' @ converted_format"

definition resize_filename :: "string \<Rightarrow> string" where
  "resize_filename filename =
     py_split_0 (CHR ''.'') filename @ converted_suffix @ ''_resized.'' @ converted_format"

text \<open>The two command lines (lines 94 and 112).\<close>

definition gdalinfo_cmd :: "path \<Rightarrow> string" where
  "gdalinfo_cmd filepath = ''gdalinfo -mm '' @ filepath"

definition gdal_translate_cmd :: "int \<Rightarrow> int \<Rightarrow> path \<Rightarrow> path \<Rightarrow> string" where
  "gdal_translate_cmd mn mx filepath output_path =
     ''gdal_translate -of '' @ converted_format @ '' -ot UInt16 -scale '' @ str_int mn @ '' ''
       @ str_int mx @ '' 0 30000 '' @ filepath @ '' '' @ output_path"

definition convert_geotiff ::
  "env \<Rightarrow> bool \<Rightarrow> path \<Rightarrow> string \<Rightarrow> path \<Rightarrow> world \<Rightarrow> py_error + (string option \<times> world)" where
  "convert_geotiff ev debug input_dir filename output_dir w =
     (let filepath = join input_dir filename;
          w1 = print_line (''Converting: '' @ filename) w;
          cmd = gdalinfo_cmd filepath
      in case popen_read ev cmd w1 of (output, w2) \<Rightarrow>
         (case re_search output of
            None \<Rightarrow>
              Inr (None,
                   print_line
                     ''Error: no min/max elevation found with gdalinfo! Skipping GeoTIFF!'' w2)
          | Some (g1, g2) \<Rightarrow>
              (case floor_float ev g1 of
                 Inl e \<Rightarrow> Inl e
               | Inr mn \<Rightarrow>
                   (case floor_float ev g2 of
                      Inl e \<Rightarrow> Inl e
                    | Inr mx \<Rightarrow>
                        (let w3 = (if debug
                                   then print_line (''DEBUG: elevation max: '' @ str_int mx)
                                          (print_line (''DEBUG: elevation min: '' @ str_int mn) w2)
                                   else w2);
                             output_path = join output_dir (output_filename filename);
                             cmd2 = gdal_translate_cmd mn mx filepath output_path;
                             w4 = (if debug then print_line (''Executing: '' @ cmd2) w3 else w3)
                         in case popen_read ev cmd2 w4 of (output2, w5) \<Rightarrow>
                            if isfile w5 output_path then
                              (case image_open w5 output_path of
                                 Inl e \<Rightarrow> Inl e
                               | Inr img \<Rightarrow>
                                   (case resize ev img (xsize img div 2, ysize img div 2) of
                                      Inl e \<Rightarrow> Inl e
                                    | Inr img' \<Rightarrow>
                                        (case image_save img'
                                                (join output_dir (resize_filename filename)) w5 of
                                           Inl e \<Rightarrow> Inl e
                                         | Inr w6 \<Rightarrow>
                                             (case remove output_path w6 of
                                                Inl e \<Rightarrow> Inl e
                                              | Inr w7 \<Rightarrow>
                                                  Inr (Some (output_filename filename),
                                                       print_line
                                                         (''File GEXD!!! Hell yeah! '' @ output_path)
                                                         w7)))))
                            else
                              Inr (None,
                                   print_line
                                     ''Error: converted file not found! gdal_translate may have failed to complete!''
                                     w5))))))"

section \<open>\<open>gextool\<close>\<close>

text \<open>
  Lines 136 to 144: the output directory is created when it is missing.
\<close>

definition ensure_output_dir :: "path \<Rightarrow> world \<Rightarrow> py_error + world" where
  "ensure_output_dir output_dir w =
     (if \<not> isdir w output_dir then
        (let w1 = print_line ''output_dir not found, trying to create it...'' w
         in case mkdir output_dir w1 of
              Inl e \<Rightarrow> Inl e
            | Inr w2 \<Rightarrow>
                if \<not> isdir w2 output_dir
                then Inr (print_line
                            ''Please create output_dir and try again, or specify an dir that already exists.''
                            (print_line (''Error: failed to create output_dir: '' @ output_dir) w2))
                else Inr (print_line (''Successfully created output_dir: '' @ output_dir) w2))
      else Inr w)"

text \<open>
  Lines 161 to 168: the body of the loop over the GeoTIFFs. The loop state is
  \<open>loop_count\<close> and the world.
\<close>

definition gexd_file :: "string \<Rightarrow> string" where
  "gexd_file filename =
     py_split_0 (CHR '','') filename @ converted_suffix @ ''.'' @ converted_format"

definition process_tif ::
  "env \<Rightarrow> bool \<Rightarrow> path \<Rightarrow> int \<Rightarrow> string \<Rightarrow> int \<times> world \<Rightarrow> py_error + (int \<times> world)" where
  "process_tif ev debug input_dir total_tif_count filename st =
     (case st of (loop_count, w) \<Rightarrow>
        if py_endswith filename ''.tif'' then
          if isfile w (gexd_file filename)
          then Inr (loop_count,
                    print_line (''Input file has already been GEXD: '' @ gexd_file filename) w)
          else
            (let w1 = print_line (''Processing '' @ str_int (loop_count + 1) @ ''/''
                                    @ str_int total_tif_count) w
             in case convert_geotiff ev debug input_dir filename input_dir w1 of
                  Inl e \<Rightarrow> Inl e
                | Inr (r, w2) \<Rightarrow> Inr (loop_count + 1, w2))
        else Inr (loop_count, w))"

text \<open>Lines 182 to 186: the body of the loop over the converted files.\<close>

definition process_gexd ::
  "bool \<Rightarrow> path \<Rightarrow> path \<Rightarrow> int \<Rightarrow> bool \<Rightarrow> string \<Rightarrow> int \<times> world \<Rightarrow> py_error + (int \<times> world)" where
  "process_gexd debug input_dir output_dir tile_size no_alpha filename st =
     (case st of (tile_count, w) \<Rightarrow>
        if py_endswith filename (converted_suffix @ ''_resized.'' @ converted_format) then
          (case cut_tiles debug input_dir filename output_dir tile_size no_alpha w of
             Inl e \<Rightarrow> Inl e
           | Inr (count, w') \<Rightarrow> Inr (tile_count + count, w'))
        else Inr (tile_count, w))"

text \<open>\<open>gextool\<close> (lines 133 to 194) returns nothing; the model returns the world.\<close>

definition gextool ::
  "env \<Rightarrow> bool \<Rightarrow> path \<Rightarrow> path \<Rightarrow> int \<Rightarrow> bool \<Rightarrow> bool \<Rightarrow> world \<Rightarrow> py_error + world" where
  "gextool ev debug input_dir output_dir tile_size no_alpha skip_tif w =
     (let w0 = print_line
                 ''Running GEXtool! Your friendly neighborhood Geotiff EXtraction tool.'' w
      in case ensure_output_dir output_dir w0 of
           Inl e \<Rightarrow> Inl e
         | Inr w1 \<Rightarrow>
      (case (if skip_tif then Inr (0, print_line ''Skipping GeoTIFF files.'' w1)
             else
               (case listdir w1 input_dir of
                  Inl e \<Rightarrow> Inl e
                | Inr names \<Rightarrow>
                    (let total_tif_count =
                           int (length (filter (\<lambda>f. py_endswith f ''.tif'') names));
                         w2 = (if 0 < total_tif_count
                               then print_line (str_int total_tif_count @ '' TIF files found! Nice!'') w1
                               else w1);
                         w3 = print_line ''Processing GeoTIFFs...'' w2
                     in case listdir w3 input_dir of
                          Inl e \<Rightarrow> Inl e
                        | Inr names2 \<Rightarrow>
                            (case for_loop names2
                                    (process_tif ev debug input_dir total_tif_count) (0, w3) of
                               Inl e \<Rightarrow> Inl e
                             | Inr (loop_count, w4) \<Rightarrow> Inr (total_tif_count, w4))))) of
         Inl e \<Rightarrow> Inl e
       | Inr (total_tif_count, w5) \<Rightarrow>
      (case listdir w5 input_dir of
         Inl e \<Rightarrow> Inl e
       | Inr names3 \<Rightarrow>
          (let total_gexd_count =
                 int (length (filter (\<lambda>f. py_endswith f (converted_suffix @ ''.'' @ converted_format))
                                names3));
               w6 = (if 0 < total_gexd_count
                     then print_line (str_int total_gexd_count @ '' GEX'' @ [CHR 0x27]
                                        @ ''d PNG files found.'') w5
                     else w5);
               w7 = print_line (''Cutting tiles from GEX'' @ [CHR 0x27] @ ''d files...'') w6
           in case listdir w7 input_dir of
                Inl e \<Rightarrow> Inl e
              | Inr names4 \<Rightarrow>
                  (case for_loop names4
                          (process_gexd debug input_dir output_dir tile_size no_alpha) (0, w7) of
                     Inl e \<Rightarrow> Inl e
                   | Inr (tile_count, w8) \<Rightarrow>
                       Inr (print_line ''GEXtool is done!''
                             (print_line
                                (if no_alpha
                                 then ''Tiles were NOT allowed to have any pixels with alpha transparency.''
                                 else ''Tiles were allowed to have pixels with alpha transparency.'')
                                (print_line (str_int tile_count @ '' tile(s) generated at ''
                                               @ str_int tile_size @ ''x'' @ str_int tile_size @ ''.'')
                                   (print_line (str_int total_tif_count @ '' GEX'' @ [CHR 0x27]
                                                  @ ''d file(s) processed.'') w8)))))))))"

section \<open>Example inputs\<close>

text \<open>
  A greyscale image of 4 by 4 pixels without a zero value, and a world that holds it as
  a converted file next to an output directory.
\<close>

definition example_image :: image where
  "example_image =
     \<lparr> mode = ''L'', xsize = 4, ysize = 4, transparency = None,
       pixel_data = map Scalar [1, 2, 3, 4, 5, 6, 7, 8, 9, 10, 11, 12, 13, 14, 15, 16] \<rparr>"

definition example_world :: world where
  "example_world =
     \<lparr> dirs = [''in'', ''out''],
       files = [(''in/a_GEXD_resized.png'', ImageFile example_image)],
       stdout = [] \<rparr>"

text \<open>
  Two surroundings for the converter. In both no command changes the file system, so
  \<open>gdal_translate\<close> leaves no output file; \<open>math.floor(float(s))\<close> is read off the
  digits before the dot, and resizing keeps the image. In the first \<open>gdalinfo\<close>
  prints no minimum and maximum, in the second it does.
\<close>

definition floor_of_decimal :: "string \<Rightarrow> py_error + int" where
  "floor_of_decimal s =
     (if s = ''.'' then Inl ValueError else Inr (int (nat_of_digits (takeWhile is_digit s))))"

definition silent_env :: env where
  "silent_env =
     \<lparr> popen_read = (\<lambda>cmd w. (''ERROR 4: No such file or directory'', w)),
       floor_float = floor_of_decimal,
       resize = (\<lambda>img sz. Inr img) \<rparr>"

definition idle_env :: env where
  "idle_env =
     \<lparr> popen_read =
         (\<lambda>cmd w. (if py_startswith cmd ''gdalinfo''
                    then ''    Computed Min/Max=12.500,3456.750'' else [], w)),
       floor_float = floor_of_decimal,
       resize = (\<lambda>img sz. Inr img) \<rparr>"

text \<open>
  A third surrounding, in which \<open>gdalinfo\<close> prints a match of the pattern whose
  numbers are lone dots.
\<close>

definition dotted_env :: env where
  "dotted_env =
     \<lparr> popen_read = (\<lambda>cmd w. (''Max=.,.'', w)),
       floor_float = floor_of_decimal,
       resize = (\<lambda>img sz. Inr img) \<rparr>"

definition tif_world :: world where
  "tif_world =
     \<lparr> dirs = [''in'', ''out''],
       files = [(''in/a.tif'', OtherFile), (''in/b.tif'', OtherFile),
                (''in/a_GEXD.png'', ImageFile example_image)],
       stdout = [] \<rparr>"

section \<open>Properties\<close>

subsection \<open>The grid walk\<close>

lemma range_up_length:
  "0 < step \<Longrightarrow> length (range_up i stop step) = nat ((stop - i + step - 1) div step)"
proof (induction i stop step rule: range_up.induct)
  case (1 i stop step)
  show ?case
  proof (cases "i < stop")
    case False
    with 1(2) have "(stop - i + step - 1) div step \<le> (step - 1) div step"
      by (intro zdiv_mono1) simp_all
    with 1(2) have "(stop - i + step - 1) div step \<le> 0" by simp
    with False show ?thesis by (simp add: range_up.simps)
  next
    case True
    have "stop - i + step - 1 = (stop - i - 1) + step" by simp
    then have a: "(stop - i + step - 1) div step = (stop - i - 1) div step + 1"
      using 1(2) by (simp only: div_add_self2)
    have b: "0 \<le> (stop - i - 1) div step"
      using True 1(2) by (simp add: pos_imp_zdiv_nonneg_iff)
    have "length (range_up (i + step) stop step) = nat ((stop - i - 1) div step)"
      using 1 True by (simp add: algebra_simps)
    with True 1(2) a b show ?thesis
      by (subst range_up.simps) (simp add: nat_add_distrib)
  qed
qed

lemma range_up_bounds:
  "x \<in> set (range_up i stop step) \<Longrightarrow> i \<le> x \<and> x < stop"
proof (induction i stop step rule: range_up.induct)
  case (1 i stop step)
  from 1(2) have c: "0 < step \<and> i < stop"
    by (subst (asm) range_up.simps) (auto split: if_splits)
  with 1(2) have "x = i \<or> x \<in> set (range_up (i + step) stop step)"
    by (subst (asm) range_up.simps) simp
  with 1(1) c show ?case by auto
qed

lemma range_up_distinct: "distinct (range_up i stop step)"
proof (induction i stop step rule: range_up.induct)
  case (1 i stop step)
  show ?case
  proof (cases "0 < step \<and> i < stop")
    case True
    with 1 have "distinct (range_up (i + step) stop step)" by simp
    moreover have "i \<notin> set (range_up (i + step) stop step)"
      using range_up_bounds [of i "i + step" stop step] True by auto
    ultimately show ?thesis using True by (subst range_up.simps) simp
  next
    case False
    have "range_up i stop step = []"
      using False by (subst range_up.simps) auto
    then show ?thesis by simp
  qed
qed

lemma ceiling_div_int:
  assumes b: "0 < (b::int)"
  shows "\<lceil>real_of_int a / real_of_int b\<rceil> = (a + b - 1) div b"
proof -
  define q where "q = (a - 1) div b"
  define r where "r = (a - 1) mod b"
  have r: "0 \<le> r" "r < b" using b by (simp_all add: r_def)
  have a: "a - 1 = b * q + r" by (simp add: q_def r_def)
  have "a + b - 1 = (a - 1) + b" by simp
  then have 1: "(a + b - 1) div b = q + 1" using b by (simp only: div_add_self2 q_def)
  have "- a = b * (- q - 1) + (b - r - 1)" using a by (simp add: algebra_simps)
  then have "(- a) div b = - q - 1"
    using r int_div_pos_eq [of "- a" b "- q - 1" "b - r - 1"] by simp
  with 1 show ?thesis by (simp add: ceiling_divide_eq_div)
qed

lemma range_up_length_ceiling:
  assumes "0 \<le> stop" "0 < step"
  shows "int (length (range_up 0 stop step)) = \<lceil>real_of_int stop / real_of_int step\<rceil>"
proof -
  have "0 \<le> (stop + step - 1) div step"
    using assms by (simp add: pos_imp_zdiv_nonneg_iff)
  then show ?thesis
    using assms by (simp add: range_up_length ceiling_div_int)
qed

lemma range_up_nonempty: "0 < step \<Longrightarrow> i < stop \<Longrightarrow> range_up i stop step \<noteq> []"
  by (subst range_up.simps) simp

lemma grid_origins_pos:
  assumes "1 \<le> S"
  shows "grid_origins W H S = Inr (List.product (range_up 0 W S) (range_up 0 H S))"
  using assms by (simp add: grid_origins_def py_range_def)

text \<open>
  C3. For an image of width \<open>W \<ge> 1\<close> and height \<open>H \<ge> 1\<close> and a tile size
  \<open>S \<ge> 1\<close>, the grid walk yields exactly \<open>\<lceil>W/S\<rceil> * \<lceil>H/S\<rceil>\<close> origins, and
  every origin \<open>(x, y)\<close> satisfies \<open>0 \<le> x < W\<close> and \<open>0 \<le> y < H\<close>.
\<close>

theorem grid_origins_count_and_bounds:
  assumes "1 \<le> W" "1 \<le> H" "1 \<le> S"
  shows "\<exists>os. grid_origins W H S = Inr os \<and>
           int (length os) = \<lceil>real_of_int W / real_of_int S\<rceil> * \<lceil>real_of_int H / real_of_int S\<rceil> \<and>
           (\<forall>(x, y) \<in> set os. 0 \<le> x \<and> x < W \<and> 0 \<le> y \<and> y < H)"
proof -
  let ?os = "List.product (range_up 0 W S) (range_up 0 H S)"
  have "grid_origins W H S = Inr ?os"
    using assms(3) by (rule grid_origins_pos)
  moreover have "int (length ?os) =
      \<lceil>real_of_int W / real_of_int S\<rceil> * \<lceil>real_of_int H / real_of_int S\<rceil>"
    using assms by (simp add: range_up_length_ceiling [symmetric])
  moreover have "\<forall>(x, y) \<in> set ?os. 0 \<le> x \<and> x < W \<and> 0 \<le> y \<and> y < H"
    by (auto dest: range_up_bounds)
  ultimately show ?thesis by blast
qed

lemma grid_256: "grid_origins 256 256 128 = Inr [(0, 0), (0, 128), (128, 0), (128, 128)]"
  by code_simp

theorem grid_origins_count_and_bounds_witness:
  "(1::int) \<le> 256 \<and> (1::int) \<le> 128 \<and>
   grid_origins 256 256 128 = Inr [(0, 0), (0, 128), (128, 0), (128, 128)] \<and>
   \<lceil>real_of_int 256 / real_of_int 128\<rceil> * \<lceil>real_of_int 256 / real_of_int 128\<rceil> = 4"
  using grid_origins_count_and_bounds [of 256 256 128] by (simp add: grid_256)

subsection \<open>The transparency classifier\<close>

lemma py_eq_0_iff: "py_eq_0 p \<longleftrightarrow> p = Scalar 0"
  by (cases p) auto

lemma list_ex_py_eq_0: "list_ex py_eq_0 ps \<longleftrightarrow> Scalar 0 \<in> set ps"
  by (auto simp: list_ex_iff py_eq_0_iff)

lemma py_eq_info_iff: "py_eq_info p t \<longleftrightarrow> (\<exists>i. p = Scalar i \<and> t = InfoInt i)"
  by (cases "(p, t)" rule: py_eq_info.cases) auto

lemma bands_P: "bands ''P'' = 1" by (simp add: bands_def)
lemma bands_RGBA: "bands ''RGBA'' = 4" by (simp add: bands_def)

lemma getcolors_P:
  assumes "wf_image img" "mode img = ''P''"
  shows "\<exists>cs. getcolors img = Some cs \<and>
           (list_ex (\<lambda>(c, index). py_eq_info index t) cs \<longleftrightarrow>
             (\<exists>i. t = InfoInt i \<and> Scalar i \<in> set (pixel_data img)))"
proof -
  let ?px = "pixel_data img"
  let ?cs = "map (\<lambda>i. (count_list ?px (Scalar (int i)), Scalar (int i)))
                  (filter (\<lambda>i. count_list ?px (Scalar (int i)) \<noteq> 0) [0..<256])"
  have gc: "getcolors img = Some ?cs"
    using assms(2) by (simp add: getcolors_def)
  have rng: "0 \<le> i \<and> i < 256" if "Scalar i \<in> set ?px" for i
  proof -
    from assms(1) that have "wf_pixel ''P'' (Scalar i)"
      by (auto simp: wf_image_def list_all_iff assms(2))
    then show ?thesis by simp
  qed
  have "list_ex (\<lambda>(c, index). py_eq_info index t) ?cs \<longleftrightarrow>
          (\<exists>i. t = InfoInt i \<and> Scalar i \<in> set ?px)" (is "?L \<longleftrightarrow> ?R")
  proof
    assume ?L
    then obtain n where "n < 256" "count_list ?px (Scalar (int n)) \<noteq> 0" "t = InfoInt (int n)"
      by (auto simp: list_ex_iff py_eq_info_iff)
    then show ?R by (auto simp: count_list_0_iff)
  next
    assume ?R
    then obtain i where i: "t = InfoInt i" "Scalar i \<in> set ?px" by blast
    with rng have "0 \<le> i" "i < 256" by auto
    then have "nat i < 256" "int (nat i) = i" by auto
    with i show ?L
      by (auto simp: list_ex_iff py_eq_info_iff count_list_0_iff intro!: bexI [of _ "nat i"])
  qed
  with gc show ?thesis by blast
qed

lemma band_extrema_nonempty:
  "vs \<noteq> [] \<Longrightarrow> band_extrema vs = Some (Min (set vs), Max (set vs))"
  by (cases vs) (simp_all add: Min.set_eq_fold Max.set_eq_fold del: set_simps)

lemma getextrema_RGBA:
  assumes "mode img = ''RGBA''"
  shows "py_index (getextrema img) 3 = Inr (band_extrema (map (channel 3) (pixel_data img)))"
  using assms by (simp add: py_index_def getextrema_def bands_RGBA nth_map_upt del: upt_Suc)

lemma has_transparency_eq:
  assumes wf: "wf_image img"
    and ne: "mode img \<noteq> ''RGBA'' \<or> pixel_data img \<noteq> []"
  shows "has_transparency img =
     (if mode img = ''P'' \<and>
         (\<exists>i. Scalar i \<in> set (pixel_data img) \<and>
              (case transparency img of None \<Rightarrow> InfoInt (- 1) | Some t \<Rightarrow> t) = InfoInt i)
      then Inr (True, ''Transparency detected in tile. P-mode detected.'')
      else if mode img = ''RGBA'' \<and> Min (set (map (channel 3) (pixel_data img))) < 255
      then Inr (True, ''Transparency detected in tile. RGBA image detected.'')
      else if Scalar 0 \<in> set (pixel_data img)
      then Inr (True, ''Transparency detected in tile. 0-value pixel detected.'')
      else Inr (False, ''Transparency NOT detected in tile.''))"
proof (cases "mode img = ''P''")
  case True
  let ?t = "case transparency img of None \<Rightarrow> InfoInt (- 1) | Some t \<Rightarrow> t"
  from getcolors_P [OF wf True, of ?t] obtain cs where
    cs: "getcolors img = Some cs"
      "list_ex (\<lambda>(c, index). py_eq_info index ?t) cs \<longleftrightarrow>
         (\<exists>i. ?t = InfoInt i \<and> Scalar i \<in> set (pixel_data img))"
    by blast
  show ?thesis
  proof (cases "\<exists>i. ?t = InfoInt i \<and> Scalar i \<in> set (pixel_data img)")
    case True
    then have "list_ex (\<lambda>(c, index). py_eq_info index ?t) cs" using cs(2) by simp
    moreover from True have "\<exists>i. Scalar i \<in> set (pixel_data img) \<and> ?t = InfoInt i" by blast
    ultimately show ?thesis
      using \<open>mode img = ''P''\<close> cs(1) by (simp add: has_transparency_def)
  next
    case False
    then have "\<not> list_ex (\<lambda>(c, index). py_eq_info index ?t) cs" using cs(2) by simp
    moreover from False have "\<not> (\<exists>i. Scalar i \<in> set (pixel_data img) \<and> ?t = InfoInt i)" by blast
    ultimately show ?thesis
      using \<open>mode img = ''P''\<close> cs(1)
      by (simp add: has_transparency_def getdata_def list_ex_py_eq_0)
  qed
next
  case notP: False
  show ?thesis
  proof (cases "mode img = ''RGBA''")
    case True
    with ne have "pixel_data img \<noteq> []" by simp
    then have "band_extrema (map (channel 3) (pixel_data img)) =
        Some (Min (set (map (channel 3) (pixel_data img))), Max (set (map (channel 3) (pixel_data img))))"
      by (intro band_extrema_nonempty) simp
    with True notP getextrema_RGBA [OF True] show ?thesis
      by (simp add: has_transparency_def getdata_def list_ex_py_eq_0 del: set_map)
  next
    case False
    with notP show ?thesis
      by (simp add: has_transparency_def getdata_def list_ex_py_eq_0)
  qed
qed


subsection \<open>Tile names\<close>

lemma lt10_cases: "(d::nat) < 10 \<Longrightarrow> d \<in> {0, 1, 2, 3, 4, 5, 6, 7, 8, 9}"
  by auto

lemma digit_value_digit_char: "d < 10 \<Longrightarrow> digit_value (digit_char d) = d"
  by (drule lt10_cases) (auto simp: digit_value_def digit_char_def)

lemma is_digit_digit_char: "d < 10 \<Longrightarrow> is_digit (digit_char d)"
  by (drule lt10_cases) (auto simp: is_digit_def digit_char_def)

lemma nat_of_digits_snoc: "nat_of_digits (s @ [c]) = 10 * nat_of_digits s + digit_value c"
  by (simp add: nat_of_digits_def)

lemma nat_of_digits_str_nat: "nat_of_digits (str_nat n) = n"
proof (induction n rule: str_nat.induct)
  case (1 n)
  show ?case
  proof (cases "n < 10")
    case True
    then show ?thesis
      by (subst str_nat.simps) (simp add: nat_of_digits_def digit_value_digit_char)
  next
    case False
    with 1 have "nat_of_digits (str_nat (n div 10)) = n div 10" by simp
    with False show ?thesis
      by (subst str_nat.simps) (simp add: nat_of_digits_snoc digit_value_digit_char)
  qed
qed

lemma str_nat_digits: "list_all is_digit (str_nat n)"
proof (induction n rule: str_nat.induct)
  case (1 n)
  show ?case
  proof (cases "n < 10")
    case True
    then show ?thesis by (subst str_nat.simps) (simp add: is_digit_digit_char)
  next
    case False
    with 1 have "list_all is_digit (str_nat (n div 10))" by simp
    with False show ?thesis by (subst str_nat.simps) (simp add: is_digit_digit_char)
  qed
qed

lemma digit_value_0: "digit_value (CHR ''0'') = 0"
  by (simp add: digit_value_def)

lemma nat_of_digits_zeros: "nat_of_digits (replicate k (CHR ''0'') @ s) = nat_of_digits s"
proof -
  have z: "foldl (\<lambda>a c. 10 * a + digit_value c) 0 (replicate k (CHR ''0'')) = 0"
    by (induction k) (simp_all add: digit_value_0)
  show ?thesis by (simp add: nat_of_digits_def z)
qed

lemma zeros_digits: "list_all is_digit (replicate k (CHR ''0''))"
  by (simp add: list_all_iff is_digit_def)

lemma format_0gt4_value: "0 \<le> x \<Longrightarrow> int (nat_of_digits (format_0gt4 x)) = x"
  by (simp add: format_0gt4_def str_int_def Let_def nat_of_digits_zeros nat_of_digits_str_nat)

lemma format_0gt4_digits: "0 \<le> x \<Longrightarrow> list_all is_digit (format_0gt4 x)"
  by (simp add: format_0gt4_def str_int_def Let_def str_nat_digits zeros_digits)

lemma format_0gt4_inj: "0 \<le> x \<Longrightarrow> 0 \<le> y \<Longrightarrow> format_0gt4 x = format_0gt4 y \<Longrightarrow> x = y"
  using format_0gt4_value by metis

lemma digits_sep_cancel:
  assumes "list_all is_digit a" "list_all is_digit a'" "a @ ''_'' @ b = a' @ ''_'' @ b'"
  shows "a = a' \<and> b = b'"
proof -
  have nd: "\<not> is_digit (CHR ''_'')" by (simp add: is_digit_def)
  have "takeWhile is_digit (a @ ''_'' @ b) = a"
    using assms(1) nd by (simp add: takeWhile_append2 list_all_iff)
  moreover have "takeWhile is_digit (a' @ ''_'' @ b') = a'"
    using assms(2) nd by (simp add: takeWhile_append2 list_all_iff)
  ultimately have "a = a'" using assms(3) by simp
  with assms(3) show ?thesis by simp
qed

lemma tile_name_inj:
  assumes "0 \<le> x" "0 \<le> y" "0 \<le> x'" "0 \<le> y'"
    and "tile_name filename x y = tile_name filename x' y'"
  shows "x = x' \<and> y = y'"
proof -
  from assms(5) have "format_0gt4 x @ ''_'' @ format_0gt4 y = format_0gt4 x' @ ''_'' @ format_0gt4 y'"
    by (simp add: tile_name_def Let_def)
  with digits_sep_cancel [OF format_0gt4_digits [OF assms(1)] format_0gt4_digits [OF assms(3)]]
  have "format_0gt4 x = format_0gt4 x' \<and> format_0gt4 y = format_0gt4 y'" by blast
  with assms(1-4) show ?thesis by (auto dest: format_0gt4_inj)
qed


lemma has_transparency_empty_rgba:
  assumes "mode img = ''RGBA''" "pixel_data img = []"
  shows "has_transparency img = Inl TypeError"
  using assms getextrema_RGBA [OF assms(1)] by (simp add: has_transparency_def)

text \<open>
  C1, as amended. For every tile that holds at least one pixel or whose mode is not
  \<open>RGBA\<close>, the classifier returns true exactly when one of the three rules holds,
  tried in this order, the first match deciding (and naming the line printed):
  (1) the mode is \<open>P\<close> and some pixel equals the designated transparent index, which
  is \<open>-1\<close> when none is designated and then matches no pixel; (2) the mode is
  \<open>RGBA\<close> and the least alpha value of the tile is below 255; (3) some pixel is the
  integer 0. Otherwise it returns false. A tile in \<open>RGBA\<close> mode without pixels has
  no least alpha value: there the classifier raises \<open>TypeError\<close> instead of returning
  false, which is the counterexample to the claim as first stated.
\<close>

theorem has_transparency_first_match:
  assumes "wf_image img"
    and "pixel_data img \<noteq> [] \<or> mode img \<noteq> ''RGBA''"
  shows "has_transparency img =
     (if mode img = ''P'' \<and>
         (\<exists>i. Scalar i \<in> set (pixel_data img) \<and>
              (case transparency img of None \<Rightarrow> InfoInt (- 1) | Some t \<Rightarrow> t) = InfoInt i)
      then Inr (True, ''Transparency detected in tile. P-mode detected.'')
      else if mode img = ''RGBA'' \<and> Min (set (map (channel 3) (pixel_data img))) < 255
      then Inr (True, ''Transparency detected in tile. RGBA image detected.'')
      else if Scalar 0 \<in> set (pixel_data img)
      then Inr (True, ''Transparency detected in tile. 0-value pixel detected.'')
      else Inr (False, ''Transparency NOT detected in tile.''))"
  using assms by (intro has_transparency_eq) auto

theorem has_transparency_first_match_witness:
  "wf_image \<lparr>mode = ''P'', xsize = 2, ysize = 1, transparency = Some (InfoInt 7),
             pixel_data = [Scalar 3, Scalar 7]\<rparr> \<and>
   has_transparency \<lparr>mode = ''P'', xsize = 2, ysize = 1, transparency = Some (InfoInt 7),
                     pixel_data = [Scalar 3, Scalar 7]\<rparr>
     = Inr (True, ''Transparency detected in tile. P-mode detected.'')"
  using has_transparency_first_match
    [of "\<lparr>mode = ''P'', xsize = 2, ysize = 1, transparency = Some (InfoInt 7),
           pixel_data = [Scalar 3, Scalar 7]\<rparr>"]
  by (simp add: wf_image_def bands_def)

theorem has_transparency_empty_rgba_counterexample:
  "wf_image \<lparr>mode = ''RGBA'', xsize = 0, ysize = 0, transparency = None, pixel_data = []\<rparr> \<and>
   has_transparency \<lparr>mode = ''RGBA'', xsize = 0, ysize = 0, transparency = None, pixel_data = []\<rparr>
     = Inl TypeError"
  by (simp add: wf_image_def has_transparency_empty_rgba)

lemma wf_rgba_pixel:
  assumes "wf_image img" "mode img = ''RGBA''" "p \<in> set (pixel_data img)"
  shows "\<exists>r g b a. p = Channels [r, g, b, a]"
proof -
  from assms have wf: "wf_pixel ''RGBA'' p"
    by (auto simp: wf_image_def list_all_iff)
  then obtain cs where p: "p = Channels cs" "length cs = 4"
    by (cases p) (auto simp: bands_RGBA)
  then obtain r g b a where "cs = [r, g, b, a]"
    by (auto simp: length_Suc_conv numeral_eq_Suc)
  with p show ?thesis by blast
qed

text \<open>
  C10. In a tile of mode \<open>RGBA\<close> every pixel is a tuple of four channels, so no pixel
  equals the integer 0 and the zero-value rule never fires; the tile is classified
  transparent exactly when it has a least alpha value and that value is below 255.
\<close>

theorem rgba_zero_rule_never_fires:
  assumes "wf_image img" "mode img = ''RGBA''"
  shows "(\<forall>p \<in> set (getdata img). \<exists>r g b a. p = Channels [r, g, b, a]) \<and>
         \<not> list_ex py_eq_0 (getdata img) \<and>
         has_transparency img
           \<noteq> Inr (True, ''Transparency detected in tile. 0-value pixel detected.'') \<and>
         ((\<exists>line. has_transparency img = Inr (True, line)) \<longleftrightarrow>
            pixel_data img \<noteq> [] \<and> Min (set (map (channel 3) (pixel_data img))) < 255)"
proof -
  have tup: "\<forall>p \<in> set (getdata img). \<exists>r g b a. p = Channels [r, g, b, a]"
    using assms by (auto simp: getdata_def dest: wf_rgba_pixel)
  then have nz: "Scalar 0 \<notin> set (pixel_data img)"
    by (auto simp: getdata_def)
  then have ex: "\<not> list_ex py_eq_0 (getdata img)"
    by (simp add: list_ex_py_eq_0 getdata_def)
  have notP: "mode img \<noteq> ''P''" using assms(2) by simp
  show ?thesis
  proof (cases "pixel_data img = []")
    case True
    with assms(2) have "has_transparency img = Inl TypeError"
      by (intro has_transparency_empty_rgba)
    with tup ex True show ?thesis by simp
  next
    case False
    then have "has_transparency img =
       (if Min (set (map (channel 3) (pixel_data img))) < 255
        then Inr (True, ''Transparency detected in tile. RGBA image detected.'')
        else Inr (False, ''Transparency NOT detected in tile.''))"
      using has_transparency_eq [OF assms(1), of] assms(2) nz notP by simp
    with tup ex False show ?thesis by simp
  qed
qed

theorem rgba_zero_rule_never_fires_witness:
  "wf_image \<lparr>mode = ''RGBA'', xsize = 1, ysize = 2, transparency = None,
             pixel_data = [Channels [0, 0, 0, 255], Channels [10, 20, 30, 254]]\<rparr> \<and>
   \<not> list_ex py_eq_0 [Channels [0, 0, 0, 255], Channels [10, 20, 30, 254]] \<and>
   has_transparency \<lparr>mode = ''RGBA'', xsize = 1, ysize = 2, transparency = None,
                     pixel_data = [Channels [0, 0, 0, 255], Channels [10, 20, 30, 254]]\<rparr>
     = Inr (True, ''Transparency detected in tile. RGBA image detected.'')"
proof -
  let ?t = "\<lparr>mode = ''RGBA'', xsize = 1, ysize = 2, transparency = None,
             pixel_data = [Channels [0, 0, 0, 255], Channels [10, 20, 30, 254]]\<rparr>"
  have wf: "wf_image ?t" by (simp add: wf_image_def bands_def)
  have run: "has_transparency ?t
      = Inr (True, ''Transparency detected in tile. RGBA image detected.'')"
    by code_simp
  from rgba_zero_rule_never_fires [OF wf] have "\<not> list_ex py_eq_0 (getdata ?t)" by simp
  with wf run show ?thesis by (simp add: getdata_def)
qed

lemma grid_origins_nonneg:
  assumes "1 \<le> S" "grid_origins W H S = Inr os" "(x, y) \<in> set os"
  shows "0 \<le> x \<and> 0 \<le> y"
  using assms by (auto simp: grid_origins_pos dest: range_up_bounds)

lemma grid_origins_distinct:
  assumes "1 \<le> S" "grid_origins W H S = Inr os"
  shows "distinct os"
  using assms by (auto simp: grid_origins_pos distinct_product range_up_distinct)

text \<open>
  C6. The origins of one grid walk are pairwise distinct, and so are the tile names
  \<open>{stem}_{x:0>4}_{y:0>4}\<close> made from them for one file: the padded text of a
  coordinate still reads as that coordinate, also from 10000 on, where the text is
  longer than four characters.
\<close>

theorem tile_identifiers_distinct:
  assumes "1 \<le> S" "grid_origins W H S = Inr os"
  shows "distinct os \<and>
         distinct (map (\<lambda>(x, y). tile_name filename x y) os) \<and>
         (\<forall>(x, y) \<in> set os. int (nat_of_digits (format_0gt4 x)) = x \<and>
                              int (nat_of_digits (format_0gt4 y)) = y)"
proof -
  have d: "distinct os" using assms by (rule grid_origins_distinct)
  have nn: "0 \<le> x \<and> 0 \<le> y" if "(x, y) \<in> set os" for x y
    using assms that by (rule grid_origins_nonneg)
  have "inj_on (\<lambda>(x, y). tile_name filename x y) (set os)"
  proof (rule inj_onI)
    fix p q
    assume p: "p \<in> set os" and q: "q \<in> set os"
      and eq: "(case p of (x, y) \<Rightarrow> tile_name filename x y)
             = (case q of (x, y) \<Rightarrow> tile_name filename x y)"
    obtain x y x' y' where pq: "p = (x, y)" "q = (x', y')"
      by (cases p, cases q) blast
    with p q nn have "0 \<le> x" "0 \<le> y" "0 \<le> x'" "0 \<le> y'" by blast+
    moreover from eq pq have "tile_name filename x y = tile_name filename x' y'" by simp
    ultimately have "x = x' \<and> y = y'" by (rule tile_name_inj)
    with pq show "p = q" by simp
  qed
  with d have "distinct (map (\<lambda>(x, y). tile_name filename x y) os)"
    by (simp add: distinct_map)
  moreover have "\<forall>(x, y) \<in> set os. int (nat_of_digits (format_0gt4 x)) = x \<and>
                              int (nat_of_digits (format_0gt4 y)) = y"
    using nn by (auto simp: format_0gt4_value)
  ultimately show ?thesis using d by blast
qed

lemma grid_20000: "grid_origins 20000 1 10000 = Inr [(0, 0), (10000, 0)]"
  by code_simp

lemma replicate_small:
  "replicate 1 c = [c]" "replicate 2 c = [c, c]" "replicate 3 c = [c, c, c]"
  by (simp_all add: numeral_eq_Suc)

lemma format_0gt4_0: "format_0gt4 0 = ''0000''"
  by (simp add: format_0gt4_def str_int_def str_nat.simps digit_char_def replicate_small)

lemma format_0gt4_10000: "format_0gt4 10000 = ''10000''"
  by (simp add: format_0gt4_def str_int_def str_nat.simps digit_char_def replicate_small)

lemma names_20000:
  "map (\<lambda>(x, y). tile_name ''a_GEXD_resized.png'' x y) [(0, 0), (10000, 0)]
     = [''a_GEXD_resized_0000_0000'', ''a_GEXD_resized_10000_0000'']"
  by (simp add: tile_name_def py_split_0_def format_0gt4_0 format_0gt4_10000)

theorem tile_identifiers_distinct_witness:
  "(1::int) \<le> 10000 \<and>
   grid_origins 20000 1 10000 = Inr [(0, 0), (10000, 0)] \<and>
   distinct [(0::int, 0::int), (10000, 0)] \<and>
   distinct [''a_GEXD_resized_0000_0000'', ''a_GEXD_resized_10000_0000'']"
  using tile_identifiers_distinct [of 10000 20000 1 "[(0, 0), (10000, 0)]" "''a_GEXD_resized.png''"]
  by (simp add: grid_20000 names_20000)

subsection \<open>Cropping\<close>

lemma bands_cases: "bands m = 1 \<or> bands m = 2 \<or> bands m = 3 \<or> bands m = 4"
  by (simp add: bands_def)

lemma wf_zero_pixel: "wf_pixel m (zero_pixel m)"
  using bands_cases [of m] by (auto simp: zero_pixel_def)

lemma wf_pixel_at:
  assumes "wf_image img"
  shows "wf_pixel (mode img) (pixel_at img cx cy)"
  using assms by (auto simp: pixel_at_def wf_zero_pixel wf_image_def list_all_length)

lemma crop_region_fields:
  assumes "left \<le> right" "upper \<le> lower"
  shows "mode (crop_region img left upper right lower) = mode img"
    and "transparency (crop_region img left upper right lower) = transparency img"
    and "xsize (crop_region img left upper right lower) = right - left"
    and "ysize (crop_region img left upper right lower) = lower - upper"
    and "int (length (pixel_data (crop_region img left upper right lower)))
           = (right - left) * (lower - upper)"
  using assms by (simp_all add: crop_region_def Let_def)

lemma wf_crop_region:
  assumes "wf_image img" "left \<le> right" "upper \<le> lower"
  shows "wf_image (crop_region img left upper right lower)"
proof -
  have "list_all (wf_pixel (mode img)) (pixel_data (crop_region img left upper right lower))"
    using assms(1) by (simp add: crop_region_def Let_def list_all_iff wf_pixel_at)
  with assms crop_region_fields [OF assms(2,3), of img] show ?thesis
    by (simp add: wf_image_def)
qed

lemma pixel_at_crop_region:
  assumes "left \<le> right" "upper \<le> lower" "0 \<le> i" "i < right - left" "0 \<le> j" "j < lower - upper"
  shows "pixel_at (crop_region img left upper right lower) i j = pixel_at img (left + i) (upper + j)"
proof -
  define w where "w = nat (right - left)"
  define h where "h = nat (lower - upper)"
  define k where "k = nat j * w + nat i"
  have iw: "nat i < w" and jh: "nat j < h" using assms by (simp_all add: w_def h_def)
  have "k < w * nat j + w" using iw by (simp add: k_def mult.commute)
  also have "\<dots> = w * Suc (nat j)" by simp
  also have "\<dots> \<le> w * h" using jh by (intro mult_le_mono2) simp
  finally have kwh: "k < w * h" .
  have km: "k mod w = nat i" and kd: "k div w = nat j"
    using iw by (simp_all add: k_def)
  have idx: "nat (j * (right - left) + i) = k"
    using assms by (simp add: k_def w_def nat_add_distrib nat_mult_distrib)
  have "pixel_at (crop_region img left upper right lower) i j
      = pixel_data (crop_region img left upper right lower) ! k"
    using assms kwh idx by (simp add: pixel_at_def crop_region_def Let_def w_def [symmetric] h_def [symmetric])
  also have "\<dots> = pixel_at img (left + int (k mod w)) (upper + int (k div w))"
    using kwh by (simp add: crop_region_def Let_def w_def [symmetric] h_def [symmetric])
  also have "\<dots> = pixel_at img (left + i) (upper + j)"
    using assms km kd by simp
  finally show ?thesis .
qed

lemma crop_crop_box:
  assumes "1 \<le> S"
  shows "crop img (crop_box x y S) = Inr (crop_region img x y (x + (S - 1)) (y + (S - 1)))"
  using assms by (simp add: crop_def crop_box_def)

subsection \<open>The loop of \<open>cut_tiles\<close>\<close>

lemma for_loop_append:
  "for_loop (as @ bs) f s = (case for_loop as f s of Inl e \<Rightarrow> Inl e | Inr s' \<Rightarrow> for_loop bs f s')"
  by (induction as arbitrary: s) (auto split: sum.splits)

lemma for_loop_map_Pair:
  "for_loop (map (Pair x) ys) (\<lambda>(x, y). body x y) s = for_loop ys (body x) s"
  by (induction ys arbitrary: s) (auto split: sum.splits)

lemma for_loop_product:
  "for_loop xs (\<lambda>x. for_loop ys (body x)) s = for_loop (List.product xs ys) (\<lambda>(x, y). body x y) s"
  by (induction xs arbitrary: s) (auto simp: for_loop_append for_loop_map_Pair split: sum.splits)

lemma cut_tiles_grid:
  assumes "1 \<le> S"
  shows "cut_tiles debug input_dir filename output_dir S no_alpha w =
     (case image_open (print_line (''Cutting tiles from '' @ filename) w) (join input_dir filename) of
        Inl e \<Rightarrow> Inl e
      | Inr img \<Rightarrow>
          (case grid_origins (xsize img) (ysize img) S of
             Inl e \<Rightarrow> Inl e
           | Inr os \<Rightarrow>
               (case for_loop os (\<lambda>(x, y). cut_tile debug img filename output_dir S no_alpha x y)
                       (0, True, print_line (''Cutting tiles from '' @ filename) w) of
                  Inl e \<Rightarrow> Inl e
                | Inr (tile_count, should_save_tile, w') \<Rightarrow> Inr (tile_count, w'))))"
  using assms
  by (simp add: cut_tiles_def Let_def grid_origins_pos py_range_def for_loop_product
           split: sum.splits)

lemma map_of_write_file:
  "map_of (files (write_file p f w)) = (map_of (files w))(p \<mapsto> f)"
proof -
  have "map_of (filter (\<lambda>e. fst e \<noteq> p) xs) q = map_of xs q" if "q \<noteq> p" for xs :: "(path \<times> content) list" and q
    using that by (induction xs) auto
  then show ?thesis by (auto simp: write_file_def fun_eq_iff)
qed

lemma dirs_write_file [simp]: "dirs (write_file p f w) = dirs w"
  by (simp add: write_file_def)

lemma stdout_write_file [simp]: "stdout (write_file p f w) = stdout w"
  by (simp add: write_file_def)

lemma dirs_print_line [simp]: "dirs (print_line s w) = dirs w"
  by (simp add: print_line_def)

lemma files_print_line [simp]: "files (print_line s w) = files w"
  by (simp add: print_line_def)

lemma stdout_print_line [simp]: "stdout (print_line s w) = stdout w @ [s]"
  by (simp add: print_line_def)

lemma isdir_print_line [simp]: "isdir (print_line s w) p = isdir w p"
  by (simp add: isdir_def)

lemma isfile_print_line [simp]: "isfile (print_line s w) p = isfile w p"
  by (simp add: isfile_def)

lemma parent_exists_print_line [simp]: "parent_exists (print_line s w) p = parent_exists w p"
  by (simp add: parent_exists_def)

lemma image_save_Inr:
  "image_save img p w = Inr w' \<Longrightarrow> w' = write_file p (ImageFile img) w"
  by (auto simp: image_save_def split: if_splits)

lemma transparent_cases:
  "has_transparency t = Inr (found, line) \<Longrightarrow> transparent t = Inr found"
  by (simp add: transparent_def)

lemma crop_tile_at:
  "1 \<le> S \<Longrightarrow> crop img (crop_box x y S) = Inr (tile_at img S x y)"
  by (simp add: crop_crop_box tile_at_def)

lemma cut_tile_step:
  assumes S: "1 \<le> S"
    and b: "b \<or> no_alpha"
    and run: "cut_tile debug img filename output_dir S no_alpha x y (c, b, w) = Inr (c', b', w')"
  shows "(accepts no_alpha (tile_at img S x y) \<and> c' = c + 1 \<and> b' \<and>
            map_of (files w') = (map_of (files w))(tile_path output_dir filename x y \<mapsto>
                  ImageFile (tile_at img S x y))
          \<or> \<not> accepts no_alpha (tile_at img S x y) \<and> c' = c \<and> no_alpha \<and>
               transparent (tile_at img S x y) = Inr True \<and>
               map_of (files w') = map_of (files w)) \<and>
         dirs w' = dirs w"
proof (cases no_alpha)
  case False
  with b have b: b by simp
  from run False b S show ?thesis
    by (auto simp: cut_tile_def crop_tile_at Let_def map_of_write_file accepts_def
             split: sum.splits if_splits dest!: image_save_Inr)
next
  case True
  let ?t = "tile_at img S x y"
  from run True S obtain found line where ht: "has_transparency ?t = Inr (found, line)"
    by (auto simp: cut_tile_def crop_tile_at split: sum.splits)
  then have tr: "transparent ?t = Inr found" by (rule transparent_cases)
  from run True S ht tr show ?thesis
    by (auto simp: cut_tile_def crop_tile_at Let_def map_of_write_file accepts_def
             split: sum.splits if_splits dest!: image_save_Inr)
qed

lemma cut_tile_loop:
  assumes S: "1 \<le> S"
    and b: "b \<or> no_alpha"
    and run: "for_loop os (\<lambda>(x, y). cut_tile debug img filename output_dir S no_alpha x y) (c, b, w)
              = Inr (c', b', w')"
  shows "c' = c + int (length (filter (\<lambda>(x, y). accepts no_alpha (tile_at img S x y)) os)) \<and>
         dirs w' = dirs w \<and>
         (\<forall>(x, y) \<in> set os. accepts no_alpha (tile_at img S x y) \<or>
             (no_alpha \<and> transparent (tile_at img S x y) = Inr True)) \<and>
         map_of (files w') = map_of (files w) ++
           map_of (rev (map (\<lambda>(x, y). (tile_path output_dir filename x y,
                                       ImageFile (tile_at img S x y)))
                         (filter (\<lambda>(x, y). accepts no_alpha (tile_at img S x y)) os)))"
  using b run
proof (induction os arbitrary: c b w)
  case Nil
  then show ?case by simp
next
  case (Cons a os)
  obtain x y where a: "a = (x, y)" by (cases a)
  from Cons.prems(2) a obtain c1 b1 w1 where
    step: "cut_tile debug img filename output_dir S no_alpha x y (c, b, w) = Inr (c1, b1, w1)"
    and rest: "for_loop os (\<lambda>(x, y). cut_tile debug img filename output_dir S no_alpha x y) (c1, b1, w1)
              = Inr (c', b', w')"
    by (auto split: sum.splits)
  note st = cut_tile_step [OF S Cons.prems(1) step]
  have b1: "b1 \<or> no_alpha" using st by auto
  note ih = Cons.IH [OF b1 rest]
  show ?case
  proof (cases "accepts no_alpha (tile_at img S x y)")
    case True
    with st have 1: "c1 = c + 1" "dirs w1 = dirs w"
      "map_of (files w1) = (map_of (files w))(tile_path output_dir filename x y \<mapsto>
                  ImageFile (tile_at img S x y))" by auto
    let ?keep = "\<lambda>(x, y). accepts no_alpha (tile_at img S x y)"
    let ?pair = "\<lambda>(x, y). (tile_path output_dir filename x y, ImageFile (tile_at img S x y))"
    let ?rest = "map_of (rev (map ?pair (filter ?keep os)))"
    have "map_of (rev (map ?pair (filter ?keep (a # os))))
        = map_of [?pair (x, y)] ++ ?rest"
      using True a by (simp add: map_of_append)
    then have "map_of (files w) ++ map_of (rev (map ?pair (filter ?keep (a # os))))
        = (map_of (files w) ++ map_of [?pair (x, y)]) ++ ?rest"
      by (simp only: map_add_assoc)
    also have "map_of (files w) ++ map_of [?pair (x, y)] = map_of (files w1)"
      using 1(3) by simp
    also have "map_of (files w1) ++ ?rest = map_of (files w')"
      using ih by simp
    finally have fm: "map_of (files w') =
        map_of (files w) ++ map_of (rev (map ?pair (filter ?keep (a # os))))" by simp
    have cnt: "c' = c + int (length (filter ?keep (a # os)))"
      using True ih a 1(1) by simp
    have dr: "dirs w' = dirs w" using ih 1(2) by simp
    have al: "\<forall>(x, y) \<in> set (a # os). accepts no_alpha (tile_at img S x y) \<or>
             (no_alpha \<and> transparent (tile_at img S x y) = Inr True)"
      using True ih a by simp
    from cnt dr al fm show ?thesis by blast
  next
    case False
    with st have 1: "c1 = c" "dirs w1 = dirs w" "map_of (files w1) = map_of (files w)"
      "no_alpha" "transparent (tile_at img S x y) = Inr True" by auto
    from False ih a 1 show ?thesis by simp
  qed
qed

lemma image_open_print_line [simp]: "image_open (print_line s w) p = image_open w p"
  by (simp add: image_open_def)

lemma join_inj:
  assumes "join a b = join a b'" "py_startswith b ''/'' = py_startswith b' ''/''"
  shows "b = b'"
proof (cases "py_startswith b ''/''")
  case True
  with assms show ?thesis by (simp add: join_def)
next
  case False
  with assms(2) have "\<not> py_startswith b' ''/''" by simp
  with False assms(1) show ?thesis
    by (cases "a = [] \<or> py_endswith a ''/''") (simp_all add: join_def)
qed

lemma py_startswith_append:
  "s \<noteq> [] \<Longrightarrow> py_startswith (s @ t) ''/'' = py_startswith s ''/''"
  by (cases s) (simp_all add: py_startswith_def)

lemma tile_path_inj:
  assumes "0 \<le> x" "0 \<le> y" "0 \<le> x'" "0 \<le> y'"
    and eq: "tile_path output_dir filename x y = tile_path output_dir filename x' y'"
  shows "x = x' \<and> y = y'"
proof -
  let ?stem = "py_split_0 (CHR ''.'') filename @ ''_''"
  have n: "tile_name filename x y @ ''.'' @ tile_format
         = ?stem @ (format_0gt4 x @ ''_'' @ format_0gt4 y @ ''.'' @ tile_format)" for x y
    by (simp add: tile_name_def Let_def)
  have st: "py_startswith (tile_name filename x y @ ''.'' @ tile_format) ''/''
      = py_startswith ?stem ''/''" for x y
    unfolding n by (rule py_startswith_append) simp
  have "py_startswith (tile_name filename x y @ ''.'' @ tile_format) ''/''
      = py_startswith (tile_name filename x' y' @ ''.'' @ tile_format) ''/''"
    by (simp only: st)
  with eq have "tile_name filename x y @ ''.'' @ tile_format
           = tile_name filename x' y' @ ''.'' @ tile_format"
    unfolding tile_path_def by (rule join_inj)
  then have "tile_name filename x y = tile_name filename x' y'" by simp
  with assms(1-4) show ?thesis by (rule tile_name_inj)
qed

lemma cut_tile_stdout:
  assumes "1 \<le> S"
    and "cut_tile debug img filename output_dir S False x y (c, True, w) = Inr (c', b', w')"
  shows "b' \<and> stdout w' = stdout w @
           (if debug then [''DEBUG: saving tile '' @ tile_name filename x y @ ''.'' @ tile_format]
            else [])"
  using assms
  by (auto simp: cut_tile_def crop_tile_at Let_def split: sum.splits if_splits dest!: image_save_Inr)

lemma cut_tile_loop_stdout:
  assumes S: "1 \<le> S"
    and run: "for_loop os (\<lambda>(x, y). cut_tile debug img filename output_dir S False x y) (c, True, w)
              = Inr (c', b', w')"
  shows "stdout w' = stdout w @
           (if debug
            then map (\<lambda>(x, y). ''DEBUG: saving tile '' @ tile_name filename x y @ ''.'' @ tile_format) os
            else [])"
  using run
proof (induction os arbitrary: c w)
  case Nil
  then show ?case by simp
next
  case (Cons a os)
  obtain x y where a: "a = (x, y)" by (cases a)
  from Cons.prems a obtain c1 b1 w1 where
    step: "cut_tile debug img filename output_dir S False x y (c, True, w) = Inr (c1, b1, w1)"
    and rest: "for_loop os (\<lambda>(x, y). cut_tile debug img filename output_dir S False x y) (c1, b1, w1)
              = Inr (c', b', w')"
    by (auto split: sum.splits)
  from cut_tile_stdout [OF S step] have b1: b1
    and out: "stdout w1 = stdout w @
           (if debug then [''DEBUG: saving tile '' @ tile_name filename x y @ ''.'' @ tile_format]
            else [])" by simp_all
  from rest b1 have "for_loop os (\<lambda>(x, y). cut_tile debug img filename output_dir S False x y) (c1, True, w1)
              = Inr (c', b', w')" by simp
  from Cons.IH [OF this] out a show ?case by simp
qed

lemma written_tiles:
  assumes S: "1 \<le> S"
    and os: "grid_origins W H S = Inr os"
    and fm: "map_of (files w') = map_of (files w) ++
           map_of (rev (map (\<lambda>(x, y). (tile_path output_dir filename x y,
                                       ImageFile (tile_at img S x y)))
                         (filter (\<lambda>(x, y). accepts no_alpha (tile_at img S x y)) os)))"
  shows "(\<forall>(x, y) \<in> set os. accepts no_alpha (tile_at img S x y) \<longrightarrow>
            map_of (files w') (tile_path output_dir filename x y) = Some (ImageFile (tile_at img S x y))) \<and>
         (\<forall>p. p \<notin> (\<lambda>(x, y). tile_path output_dir filename x y) `
                   {(x, y). (x, y) \<in> set os \<and> accepts no_alpha (tile_at img S x y)}
              \<longrightarrow> map_of (files w') p = map_of (files w) p)"
proof -
  let ?keep = "\<lambda>(x, y). accepts no_alpha (tile_at img S x y)"
  let ?path = "\<lambda>(x, y). tile_path output_dir filename x y"
  let ?pair = "\<lambda>(x, y). (tile_path output_dir filename x y, ImageFile (tile_at img S x y))"
  let ?ps = "rev (map ?pair (filter ?keep os))"
  have nn: "0 \<le> x \<and> 0 \<le> y" if "(x, y) \<in> set os" for x y
    using S os that by (rule grid_origins_nonneg)
  have inj: "inj_on ?path (set os)"
  proof (rule inj_onI)
    fix p q assume p: "p \<in> set os" and q: "q \<in> set os" and eq: "?path p = ?path q"
    obtain x y x' y' where pq: "p = (x, y)" "q = (x', y')" by (cases p, cases q) blast
    with p q nn have "0 \<le> x" "0 \<le> y" "0 \<le> x'" "0 \<le> y'" by blast+
    moreover from eq pq have "tile_path output_dir filename x y = tile_path output_dir filename x' y'"
      by simp
    ultimately have "x = x' \<and> y = y'" by (rule tile_path_inj)
    with pq show "p = q" by simp
  qed
  have fst: "map fst ?ps = rev (map ?path (filter ?keep os))"
    by (simp add: rev_map case_prod_beta comp_def)
  have "distinct (filter ?keep os)"
    using grid_origins_distinct [OF S os] by simp
  moreover have "inj_on ?path (set (filter ?keep os))"
    using inj by (rule inj_on_subset) auto
  ultimately have d: "distinct (map fst ?ps)"
    unfolding fst by (simp add: distinct_map)
  have a: "map_of (files w') (tile_path output_dir filename x y) = Some (ImageFile (tile_at img S x y))"
    if "(x, y) \<in> set os" "accepts no_alpha (tile_at img S x y)" for x y
  proof -
    from that have "(tile_path output_dir filename x y, ImageFile (tile_at img S x y)) \<in> set ?ps"
      by force
    with d have "map_of ?ps (tile_path output_dir filename x y) = Some (ImageFile (tile_at img S x y))"
      by (rule map_of_is_SomeI)
    then show ?thesis by (simp add: fm)
  qed
  have b: "map_of (files w') p = map_of (files w) p"
    if "p \<notin> ?path ` {(x, y). (x, y) \<in> set os \<and> accepts no_alpha (tile_at img S x y)}" for p
  proof -
    from that have "p \<notin> fst ` set ?ps" by force
    then have "map_of ?ps p = None" by (simp add: map_of_eq_None_iff)
    then show ?thesis by (simp add: fm map_add_def)
  qed
  from a b show ?thesis by blast
qed

lemma has_transparency_returns:
  assumes "wf_image t" "mode t \<noteq> ''RGBA'' \<or> pixel_data t \<noteq> []"
  shows "\<exists>found line. has_transparency t = Inr (found, line)"
  unfolding has_transparency_eq [OF assms] by auto

lemma tile_at_fields:
  assumes "1 \<le> S"
  shows "mode (tile_at img S x y) = mode img"
    and "transparency (tile_at img S x y) = transparency img"
    and "xsize (tile_at img S x y) = S - 1"
    and "ysize (tile_at img S x y) = S - 1"
    and "int (length (pixel_data (tile_at img S x y))) = (S - 1) * (S - 1)"
  using assms crop_region_fields [of x "x + (S - 1)" y "y + (S - 1)" img]
  by (simp_all add: tile_at_def)

lemma wf_tile_at: "wf_image img \<Longrightarrow> 1 \<le> S \<Longrightarrow> wf_image (tile_at img S x y)"
  unfolding tile_at_def by (rule wf_crop_region) simp_all

lemma tile_at_nonempty:
  assumes "2 \<le> S"
  shows "pixel_data (tile_at img S x y) \<noteq> []"
proof -
  from assms have "0 < (S - 1) * (S - 1)" by simp
  with tile_at_fields(5) [of S img x y] assms show ?thesis by auto
qed

lemma isdir_dirs: "dirs w' = dirs w \<Longrightarrow> isdir w' p = isdir w p"
  by (simp add: isdir_def)

lemma parent_exists_dirs: "dirs w' = dirs w \<Longrightarrow> parent_exists w' p = parent_exists w p"
  by (simp add: parent_exists_def isdir_def)

lemma isdir_if_print [simp]: "isdir (if d then print_line s w else w) p = isdir w p"
  by simp

lemma parent_exists_if_print [simp]:
  "parent_exists (if d then print_line s w else w) p = parent_exists w p"
  by simp

lemma cut_tile_returns:
  assumes S: "2 \<le> S"
    and wf: "wf_image img"
    and md: "mode img \<in> set png_modes"
    and nd: "\<not> isdir w (tile_path output_dir filename x y)"
    and pe: "parent_exists w (tile_path output_dir filename x y)"
  shows "\<exists>c' b' w'. cut_tile debug img filename output_dir S no_alpha x y (c, b, w)
           = Inr (c', b', w')"
proof -
  let ?t = "tile_at img S x y"
  from S have S1: "1 \<le> S" by simp
  have cr: "crop img (crop_box x y S) = Inr ?t" using S1 by (rule crop_tile_at)
  have "wf_image ?t" using wf S1 by (rule wf_tile_at)
  moreover have "pixel_data ?t \<noteq> []" using S by (rule tile_at_nonempty)
  ultimately obtain found line where ht: "has_transparency ?t = Inr (found, line)"
    using has_transparency_returns [of ?t] by blast
  have sv: "image_save ?t (tile_path output_dir filename x y) w1
          = Inr (write_file (tile_path output_dir filename x y) (ImageFile ?t) w1)"
    if "dirs w1 = dirs w" for w1
    using that nd pe md S tile_at_fields [OF S1, of img x y]
    by (simp add: image_save_def isdir_dirs [OF that] parent_exists_dirs [OF that])
  show ?thesis
    by (cases found; cases b; cases no_alpha; cases debug)
       (auto simp add: cut_tile_def cr ht Let_def sv)
qed

lemma cut_tile_loop_returns:
  assumes S: "2 \<le> S"
    and wf: "wf_image img"
    and md: "mode img \<in> set png_modes"
    and ok: "\<forall>(x, y) \<in> set os. \<not> isdir w (tile_path output_dir filename x y) \<and>
                               parent_exists w (tile_path output_dir filename x y)"
    and b: "b \<or> no_alpha"
  shows "\<exists>c' b' w'. for_loop os (\<lambda>(x, y). cut_tile debug img filename output_dir S no_alpha x y)
                       (c, b, w) = Inr (c', b', w')"
  using ok b
proof (induction os arbitrary: c b w)
  case Nil
  then show ?case by simp
next
  case (Cons a os)
  obtain x y where a: "a = (x, y)" by (cases a)
  from S have S1: "1 \<le> S" by simp
  from Cons.prems(1) a have
    "\<not> isdir w (tile_path output_dir filename x y)"
    "parent_exists w (tile_path output_dir filename x y)" by auto
  from cut_tile_returns [OF S wf md this] obtain c1 b1 w1 where
    step: "cut_tile debug img filename output_dir S no_alpha x y (c, b, w) = Inr (c1, b1, w1)"
    by blast
  note st = cut_tile_step [OF S1 Cons.prems(2) step]
  then have d: "dirs w1 = dirs w" and b1: "b1 \<or> no_alpha" by auto
  have "\<forall>(x, y) \<in> set os. \<not> isdir w1 (tile_path output_dir filename x y) \<and>
                               parent_exists w1 (tile_path output_dir filename x y)"
    using Cons.prems(1) by (simp add: isdir_dirs [OF d] parent_exists_dirs [OF d])
  from Cons.IH [OF this b1] obtain c' b' w' where
    "for_loop os (\<lambda>(x, y). cut_tile debug img filename output_dir S no_alpha x y) (c1, b1, w1)
       = Inr (c', b', w')" by blast
  with step a show ?case by simp
qed

lemma cut_tiles_run:
  assumes S: "1 \<le> S"
    and op: "image_open w (join input_dir filename) = Inr img"
    and run: "cut_tiles debug input_dir filename output_dir S no_alpha w = Inr (n, w')"
  shows "\<exists>b'. for_loop (List.product (range_up 0 (xsize img) S) (range_up 0 (ysize img) S))
           (\<lambda>(x, y). cut_tile debug img filename output_dir S no_alpha x y)
           (0, True, print_line (''Cutting tiles from '' @ filename) w) = Inr (n, b', w')"
  using run unfolding cut_tiles_grid [OF S]
  by (auto simp: op grid_origins_pos [OF S] split: sum.splits)

lemma cut_tiles_returns:
  assumes S: "2 \<le> S"
    and op: "image_open w (join input_dir filename) = Inr img"
    and wf: "wf_image img"
    and md: "mode img \<in> set png_modes"
    and os: "grid_origins (xsize img) (ysize img) S = Inr os"
    and ok: "\<forall>(x, y) \<in> set os. \<not> isdir w (tile_path output_dir filename x y) \<and>
                               parent_exists w (tile_path output_dir filename x y)"
  shows "\<exists>n w'. cut_tiles debug input_dir filename output_dir S no_alpha w = Inr (n, w')"
proof -
  let ?w0 = "print_line (''Cutting tiles from '' @ filename) w"
  from S have S1: "1 \<le> S" by simp
  have "\<forall>(x, y) \<in> set os. \<not> isdir ?w0 (tile_path output_dir filename x y) \<and>
                               parent_exists ?w0 (tile_path output_dir filename x y)"
    using ok by simp
  from cut_tile_loop_returns [OF S wf md this, of True no_alpha debug 0]
  obtain c' b' w' where
    "for_loop os (\<lambda>(x, y). cut_tile debug img filename output_dir S no_alpha x y) (0, True, ?w0)
       = Inr (c', b', w')" by blast
  then show ?thesis
    unfolding cut_tiles_grid [OF S1] by (simp add: op os)
qed

lemma cut_tiles_inactive_returned:
  assumes S: "1 \<le> S"
    and op: "image_open w (join input_dir filename) = Inr img"
    and wf: "wf_image img"
  shows "(\<forall>n w'. cut_tiles debug input_dir filename output_dir S False w = Inr (n, w') \<longrightarrow>
            n = \<lceil>real_of_int (xsize img) / real_of_int S\<rceil> * \<lceil>real_of_int (ysize img) / real_of_int S\<rceil> \<and>
            (\<exists>os. grid_origins (xsize img) (ysize img) S = Inr os \<and>
               n = int (length os) \<and>
               (\<forall>(x, y) \<in> set os.
                   map_of (files w') (tile_path output_dir filename x y)
                     = Some (ImageFile (tile_at img S x y))) \<and>
               stdout w' = stdout w @ [''Cutting tiles from '' @ filename] @
                 (if debug
                  then map (\<lambda>(x, y). ''DEBUG: saving tile '' @ tile_name filename x y @ ''.'' @ tile_format) os
                  else []))) \<and>
         (2 \<le> S \<and> mode img \<in> set png_modes \<and>
          (\<forall>os. grid_origins (xsize img) (ysize img) S = Inr os \<longrightarrow>
             (\<forall>(x, y) \<in> set os. \<not> isdir w (tile_path output_dir filename x y) \<and>
                                 parent_exists w (tile_path output_dir filename x y)))
          \<longrightarrow> (\<exists>n w'. cut_tiles debug input_dir filename output_dir S False w = Inr (n, w')))"
proof (intro conjI allI impI)
  fix n w'
  assume run: "cut_tiles debug input_dir filename output_dir S False w = Inr (n, w')"
  let ?os = "List.product (range_up 0 (xsize img) S) (range_up 0 (ysize img) S)"
  let ?w0 = "print_line (''Cutting tiles from '' @ filename) w"
  have os: "grid_origins (xsize img) (ysize img) S = Inr ?os" using S by (rule grid_origins_pos)
  from cut_tiles_run [OF S op run] obtain b' where
    loop: "for_loop ?os (\<lambda>(x, y). cut_tile debug img filename output_dir S False x y) (0, True, ?w0)
             = Inr (n, b', w')" by blast
  have inv: "n = 0 + int (length (filter (\<lambda>(x, y). accepts False (tile_at img S x y)) ?os))"
    and fm: "map_of (files w') = map_of (files ?w0) ++
           map_of (rev (map (\<lambda>(x, y). (tile_path output_dir filename x y,
                                       ImageFile (tile_at img S x y)))
                         (filter (\<lambda>(x, y). accepts False (tile_at img S x y)) ?os)))"
    using cut_tile_loop [OF S _ loop] by simp_all
  have n: "n = int (length ?os)" using inv by (simp add: accepts_def)
  have sz: "0 \<le> xsize img" "0 \<le> ysize img" using wf by (simp_all add: wf_image_def)
  have "int (length ?os) =
      \<lceil>real_of_int (xsize img) / real_of_int S\<rceil> * \<lceil>real_of_int (ysize img) / real_of_int S\<rceil>"
    using S sz by (simp add: range_up_length_ceiling [symmetric])
  with n show "n = \<lceil>real_of_int (xsize img) / real_of_int S\<rceil> * \<lceil>real_of_int (ysize img) / real_of_int S\<rceil>"
    by simp
  have wr: "\<forall>(x, y) \<in> set ?os. map_of (files w') (tile_path output_dir filename x y)
                     = Some (ImageFile (tile_at img S x y))"
    using written_tiles [OF S os fm] by (simp add: accepts_def)
  have out: "stdout w' = stdout w @ [''Cutting tiles from '' @ filename] @
                 (if debug
                  then map (\<lambda>(x, y). ''DEBUG: saving tile '' @ tile_name filename x y @ ''.'' @ tile_format) ?os
                  else [])"
    using cut_tile_loop_stdout [OF S loop] by simp
  from os n wr out
  show "\<exists>os. grid_origins (xsize img) (ysize img) S = Inr os \<and>
               n = int (length os) \<and>
               (\<forall>(x, y) \<in> set os.
                   map_of (files w') (tile_path output_dir filename x y)
                     = Some (ImageFile (tile_at img S x y))) \<and>
               stdout w' = stdout w @ [''Cutting tiles from '' @ filename] @
                 (if debug
                  then map (\<lambda>(x, y). ''DEBUG: saving tile '' @ tile_name filename x y @ ''.'' @ tile_format) os
                  else [])"
    by blast
next
  assume a: "2 \<le> S \<and> mode img \<in> set png_modes \<and>
          (\<forall>os. grid_origins (xsize img) (ysize img) S = Inr os \<longrightarrow>
             (\<forall>(x, y) \<in> set os. \<not> isdir w (tile_path output_dir filename x y) \<and>
                                 parent_exists w (tile_path output_dir filename x y)))"
  let ?os = "List.product (range_up 0 (xsize img) S) (range_up 0 (ysize img) S)"
  have os: "grid_origins (xsize img) (ysize img) S = Inr ?os" using S by (rule grid_origins_pos)
  with a have ok: "\<forall>(x, y) \<in> set ?os. \<not> isdir w (tile_path output_dir filename x y) \<and>
                                 parent_exists w (tile_path output_dir filename x y)" by blast
  from a have "2 \<le> S" "mode img \<in> set png_modes" by simp_all
  from cut_tiles_returns [OF this(1) op wf this(2) os ok]
  show "\<exists>n w'. cut_tiles debug input_dir filename output_dir S False w = Inr (n, w')" .
qed

lemma cut_tiles_active_returned:
  assumes S: "1 \<le> S"
    and op: "image_open w (join input_dir filename) = Inr img"
    and wf: "wf_image img"
  shows "(\<forall>n w'. cut_tiles debug input_dir filename output_dir S True w = Inr (n, w') \<longrightarrow>
            (\<exists>os. grid_origins (xsize img) (ysize img) S = Inr os \<and>
               (\<forall>(x, y) \<in> set os.
                   transparent (tile_at img S x y) = Inr False \<and>
                   map_of (files w') (tile_path output_dir filename x y)
                     = Some (ImageFile (tile_at img S x y))
                   \<or>
                   transparent (tile_at img S x y) = Inr True \<and>
                   map_of (files w') (tile_path output_dir filename x y)
                     = map_of (files w) (tile_path output_dir filename x y)) \<and>
               (\<forall>p. p \<notin> (\<lambda>(x, y). tile_path output_dir filename x y) ` set os \<longrightarrow>
                      map_of (files w') p = map_of (files w) p) \<and>
               n = int (length (filter (\<lambda>(x, y). transparent (tile_at img S x y) = Inr False) os)) \<and>
               n \<le> int (length os))) \<and>
         (2 \<le> S \<and> mode img \<in> set png_modes \<and>
          (\<forall>os. grid_origins (xsize img) (ysize img) S = Inr os \<longrightarrow>
             (\<forall>(x, y) \<in> set os. \<not> isdir w (tile_path output_dir filename x y) \<and>
                                 parent_exists w (tile_path output_dir filename x y)))
          \<longrightarrow> (\<exists>n w'. cut_tiles debug input_dir filename output_dir S True w = Inr (n, w')))"
proof (intro conjI allI impI)
  fix n w'
  assume run: "cut_tiles debug input_dir filename output_dir S True w = Inr (n, w')"
  let ?os = "List.product (range_up 0 (xsize img) S) (range_up 0 (ysize img) S)"
  let ?w0 = "print_line (''Cutting tiles from '' @ filename) w"
  let ?path = "\<lambda>(x, y). tile_path output_dir filename x y"
  have os: "grid_origins (xsize img) (ysize img) S = Inr ?os" using S by (rule grid_origins_pos)
  from cut_tiles_run [OF S op run] obtain b' where
    loop: "for_loop ?os (\<lambda>(x, y). cut_tile debug img filename output_dir S True x y) (0, True, ?w0)
             = Inr (n, b', w')" by blast
  have inv: "n = 0 + int (length (filter (\<lambda>(x, y). accepts True (tile_at img S x y)) ?os))"
    and cl: "\<forall>(x, y) \<in> set ?os. accepts True (tile_at img S x y) \<or>
             (True \<and> transparent (tile_at img S x y) = Inr True)"
    and fm: "map_of (files w') = map_of (files ?w0) ++
           map_of (rev (map (\<lambda>(x, y). (tile_path output_dir filename x y,
                                       ImageFile (tile_at img S x y)))
                         (filter (\<lambda>(x, y). accepts True (tile_at img S x y)) ?os)))"
    using cut_tile_loop [OF S _ loop] by simp_all
  have n: "n = int (length (filter (\<lambda>(x, y). transparent (tile_at img S x y) = Inr False) ?os))"
    using inv by (simp add: accepts_def)
  have le: "n \<le> int (length ?os)" unfolding n by (simp del: length_product)
  note wt = written_tiles [OF S os fm]
  have acc: "map_of (files w') (tile_path output_dir filename x y) = Some (ImageFile (tile_at img S x y))"
    if "(x, y) \<in> set ?os" "transparent (tile_at img S x y) = Inr False" for x y
    using wt that by (auto simp: accepts_def)
  have frame: "map_of (files w') p = map_of (files w) p"
    if "p \<notin> ?path ` {(x, y). (x, y) \<in> set ?os \<and> accepts True (tile_at img S x y)}" for p
    using wt that by simp
  have nn: "0 \<le> x \<and> 0 \<le> y" if "(x, y) \<in> set ?os" for x y
    using S os that by (rule grid_origins_nonneg)
  have rej: "map_of (files w') (tile_path output_dir filename x y)
           = map_of (files w) (tile_path output_dir filename x y)"
    if xy: "(x, y) \<in> set ?os" and tr: "transparent (tile_at img S x y) = Inr True" for x y
  proof (rule frame, rule notI)
    assume "tile_path output_dir filename x y
              \<in> ?path ` {(x, y). (x, y) \<in> set ?os \<and> accepts True (tile_at img S x y)}"
    then obtain x' y' where x'y': "(x', y') \<in> set ?os" "accepts True (tile_at img S x' y')"
      and eq: "tile_path output_dir filename x y = tile_path output_dir filename x' y'"
      by auto
    from nn [OF xy] nn [OF x'y'(1)] eq have "x = x' \<and> y = y'"
      by (intro tile_path_inj [of x y x' y' output_dir filename]) simp_all
    with x'y'(2) tr show False by (simp add: accepts_def)
  qed
  have each: "\<forall>(x, y) \<in> set ?os.
                   transparent (tile_at img S x y) = Inr False \<and>
                   map_of (files w') (tile_path output_dir filename x y)
                     = Some (ImageFile (tile_at img S x y))
                   \<or>
                   transparent (tile_at img S x y) = Inr True \<and>
                   map_of (files w') (tile_path output_dir filename x y)
                     = map_of (files w) (tile_path output_dir filename x y)"
  proof (clarify)
    fix x y assume xy: "(x, y) \<in> set ?os"
      and n: "\<not> (transparent (tile_at img S x y) = Inr True \<and>
                map_of (files w') (tile_path output_dir filename x y)
                  = map_of (files w) (tile_path output_dir filename x y))"
    from cl xy have "transparent (tile_at img S x y) = Inr False \<or>
        transparent (tile_at img S x y) = Inr True" by (auto simp: accepts_def)
    with n rej [OF xy] have f: "transparent (tile_at img S x y) = Inr False" by blast
    with acc [OF xy] show "transparent (tile_at img S x y) = Inr False \<and>
                   map_of (files w') (tile_path output_dir filename x y)
                     = Some (ImageFile (tile_at img S x y))" by simp
  qed
  have others: "\<forall>p. p \<notin> ?path ` set ?os \<longrightarrow> map_of (files w') p = map_of (files w) p"
  proof (intro allI impI)
    fix p assume "p \<notin> ?path ` set ?os"
    then have "p \<notin> ?path ` {(x, y). (x, y) \<in> set ?os \<and> accepts True (tile_at img S x y)}"
      by auto
    then show "map_of (files w') p = map_of (files w) p" by (rule frame)
  qed
  from os each others n le
  show "\<exists>os. grid_origins (xsize img) (ysize img) S = Inr os \<and>
               (\<forall>(x, y) \<in> set os.
                   transparent (tile_at img S x y) = Inr False \<and>
                   map_of (files w') (tile_path output_dir filename x y)
                     = Some (ImageFile (tile_at img S x y))
                   \<or>
                   transparent (tile_at img S x y) = Inr True \<and>
                   map_of (files w') (tile_path output_dir filename x y)
                     = map_of (files w) (tile_path output_dir filename x y)) \<and>
               (\<forall>p. p \<notin> (\<lambda>(x, y). tile_path output_dir filename x y) ` set os \<longrightarrow>
                      map_of (files w') p = map_of (files w) p) \<and>
               n = int (length (filter (\<lambda>(x, y). transparent (tile_at img S x y) = Inr False) os)) \<and>
               n \<le> int (length os)"
    by blast
next
  assume a: "2 \<le> S \<and> mode img \<in> set png_modes \<and>
          (\<forall>os. grid_origins (xsize img) (ysize img) S = Inr os \<longrightarrow>
             (\<forall>(x, y) \<in> set os. \<not> isdir w (tile_path output_dir filename x y) \<and>
                                 parent_exists w (tile_path output_dir filename x y)))"
  let ?os = "List.product (range_up 0 (xsize img) S) (range_up 0 (ysize img) S)"
  have os: "grid_origins (xsize img) (ysize img) S = Inr ?os" using S by (rule grid_origins_pos)
  with a have ok: "\<forall>(x, y) \<in> set ?os. \<not> isdir w (tile_path output_dir filename x y) \<and>
                                 parent_exists w (tile_path output_dir filename x y)" by blast
  from a have "2 \<le> S" "mode img \<in> set png_modes" by simp_all
  from cut_tiles_returns [OF this(1) op wf this(2) os ok]
  show "\<exists>n w'. cut_tiles debug input_dir filename output_dir S True w = Inr (n, w')" .
qed

text \<open>
  C5, as amended. With the no-alpha policy inactive, on an image of width \<open>W\<close> and
  height \<open>H\<close> with a tile size \<open>S \<ge> 2\<close> whose tiles can all be saved (the mode can
  be written as PNG and every tile path can be written), \<open>cut_tiles\<close> returns, it has
  written every candidate tile, and the count it returns is \<open>\<lceil>W/S\<rceil> * \<lceil>H/S\<rceil>\<close>,
  the number of candidates; it prints nothing but its heading and the debug lines, so
  the classifier, which prints a line at every call, was not called. With tile size 1
  every tile is 0 by 0, the first save raises and no count is returned, which is the
  counterexample to the claim as first stated.
\<close>

theorem cut_tiles_no_alpha_inactive:
  assumes S: "2 \<le> S"
    and op: "image_open w (join input_dir filename) = Inr img"
    and wf: "wf_image img"
    and md: "mode img \<in> set png_modes"
    and os: "grid_origins (xsize img) (ysize img) S = Inr os"
    and ok: "\<forall>(x, y) \<in> set os. \<not> isdir w (tile_path output_dir filename x y) \<and>
                               parent_exists w (tile_path output_dir filename x y)"
  shows "\<exists>n w'. cut_tiles debug input_dir filename output_dir S False w = Inr (n, w') \<and>
           n = \<lceil>real_of_int (xsize img) / real_of_int S\<rceil> * \<lceil>real_of_int (ysize img) / real_of_int S\<rceil> \<and>
           n = int (length os) \<and>
           (\<forall>(x, y) \<in> set os.
               map_of (files w') (tile_path output_dir filename x y)
                 = Some (ImageFile (tile_at img S x y))) \<and>
           stdout w' = stdout w @ [''Cutting tiles from '' @ filename] @
             (if debug
              then map (\<lambda>(x, y). ''DEBUG: saving tile '' @ tile_name filename x y @ ''.'' @ tile_format) os
              else [])"
proof -
  from S have S1: "1 \<le> S" by simp
  from cut_tiles_returns [OF S op wf md os ok] obtain n w' where
    run: "cut_tiles debug input_dir filename output_dir S False w = Inr (n, w')" by blast
  from cut_tiles_inactive_returned [OF S1 op wf, of debug output_dir, THEN conjunct1, rule_format, OF run]
  obtain os' where n: "n = \<lceil>real_of_int (xsize img) / real_of_int S\<rceil> * \<lceil>real_of_int (ysize img) / real_of_int S\<rceil>"
    and os': "grid_origins (xsize img) (ysize img) S = Inr os'"
    and rest: "n = int (length os')"
      "\<forall>(x, y) \<in> set os'.
               map_of (files w') (tile_path output_dir filename x y)
                 = Some (ImageFile (tile_at img S x y))"
      "stdout w' = stdout w @ [''Cutting tiles from '' @ filename] @
             (if debug
              then map (\<lambda>(x, y). ''DEBUG: saving tile '' @ tile_name filename x y @ ''.'' @ tile_format) os'
              else [])"
    by blast
  from os os' have "os' = os" by simp
  with run n rest show ?thesis by blast
qed

text \<open>
  C2, as amended. With the no-alpha policy active, on an image with a tile size
  \<open>S \<ge> 2\<close> whose tiles can all be saved, \<open>cut_tiles\<close> returns and has classified
  every candidate tile: a tile is written when the classifier returned false for it and
  left out (its path untouched) when the classifier returned true. The count returned
  is the number of tiles classified not transparent, at most the number of candidates,
  and every tile left out is classified transparent. With tile size 1 the run raises
  at the first tile, which is thus left out although it is classified not transparent:
  the counterexample to the claim as first stated.
\<close>

theorem cut_tiles_no_alpha_active:
  assumes S: "2 \<le> S"
    and op: "image_open w (join input_dir filename) = Inr img"
    and wf: "wf_image img"
    and md: "mode img \<in> set png_modes"
    and os: "grid_origins (xsize img) (ysize img) S = Inr os"
    and ok: "\<forall>(x, y) \<in> set os. \<not> isdir w (tile_path output_dir filename x y) \<and>
                               parent_exists w (tile_path output_dir filename x y)"
  shows "\<exists>n w'. cut_tiles debug input_dir filename output_dir S True w = Inr (n, w') \<and>
           (\<forall>(x, y) \<in> set os.
               transparent (tile_at img S x y) = Inr False \<and>
               map_of (files w') (tile_path output_dir filename x y)
                 = Some (ImageFile (tile_at img S x y))
               \<or>
               transparent (tile_at img S x y) = Inr True \<and>
               map_of (files w') (tile_path output_dir filename x y)
                 = map_of (files w) (tile_path output_dir filename x y)) \<and>
           (\<forall>p. p \<notin> (\<lambda>(x, y). tile_path output_dir filename x y) ` set os \<longrightarrow>
                  map_of (files w') p = map_of (files w) p) \<and>
           n = int (length (filter (\<lambda>(x, y). transparent (tile_at img S x y) = Inr False) os)) \<and>
           n \<le> int (length os)"
proof -
  from S have S1: "1 \<le> S" by simp
  from cut_tiles_returns [OF S op wf md os ok] obtain n w' where
    run: "cut_tiles debug input_dir filename output_dir S True w = Inr (n, w')" by blast
  from cut_tiles_active_returned [OF S1 op wf, of debug output_dir, THEN conjunct1, rule_format, OF run]
  obtain os' where os': "grid_origins (xsize img) (ysize img) S = Inr os'"
    and rest: "\<forall>(x, y) \<in> set os'.
               transparent (tile_at img S x y) = Inr False \<and>
               map_of (files w') (tile_path output_dir filename x y)
                 = Some (ImageFile (tile_at img S x y))
               \<or>
               transparent (tile_at img S x y) = Inr True \<and>
               map_of (files w') (tile_path output_dir filename x y)
                 = map_of (files w) (tile_path output_dir filename x y)"
      "\<forall>p. p \<notin> (\<lambda>(x, y). tile_path output_dir filename x y) ` set os' \<longrightarrow>
                  map_of (files w') p = map_of (files w) p"
      "n = int (length (filter (\<lambda>(x, y). transparent (tile_at img S x y) = Inr False) os'))"
      "n \<le> int (length os')"
    by blast
  from os os' have "os' = os" by simp
  with run rest show ?thesis by blast
qed

subsection \<open>The example run\<close>

lemma format_0gt4_3: "format_0gt4 3 = ''0003''"
  by (simp add: format_0gt4_def str_int_def str_nat.simps digit_char_def replicate_small)

lemma example_grid: "grid_origins 4 4 3 = Inr [(0, 0), (0, 3), (3, 0), (3, 3)]"
  by code_simp

lemma example_tile_paths:
  "tile_path ''out'' ''a_GEXD_resized.png'' 0 0 = ''out/a_GEXD_resized_0000_0000.png''"
  "tile_path ''out'' ''a_GEXD_resized.png'' 0 3 = ''out/a_GEXD_resized_0000_0003.png''"
  "tile_path ''out'' ''a_GEXD_resized.png'' 3 0 = ''out/a_GEXD_resized_0003_0000.png''"
  "tile_path ''out'' ''a_GEXD_resized.png'' 3 3 = ''out/a_GEXD_resized_0003_0003.png''"
  by (simp_all add: tile_path_def tile_name_def join_def py_startswith_def py_endswith_def
        py_split_0_def format_0gt4_0 format_0gt4_3 tile_format_def)

lemma example_writable:
  "\<not> isdir example_world ''out/a_GEXD_resized_0000_0000.png''"
  "\<not> isdir example_world ''out/a_GEXD_resized_0000_0003.png''"
  "\<not> isdir example_world ''out/a_GEXD_resized_0003_0000.png''"
  "\<not> isdir example_world ''out/a_GEXD_resized_0003_0003.png''"
  "parent_exists example_world ''out/a_GEXD_resized_0000_0000.png''"
  "parent_exists example_world ''out/a_GEXD_resized_0000_0003.png''"
  "parent_exists example_world ''out/a_GEXD_resized_0003_0000.png''"
  "parent_exists example_world ''out/a_GEXD_resized_0003_0003.png''"
  by (simp_all add: isdir_def parent_exists_def dirname_def example_world_def)

lemma example_open:
  "image_open example_world (join ''in'' ''a_GEXD_resized.png'') = Inr example_image"
  by (simp add: image_open_def join_def py_startswith_def py_endswith_def example_world_def)

lemma example_wf: "wf_image example_image"
  by (simp add: wf_image_def example_image_def bands_def)

lemma example_transparent:
  "transparent (tile_at example_image 3 0 0) = Inr False"
  "transparent (tile_at example_image 3 0 3) = Inr True"
  "transparent (tile_at example_image 3 3 0) = Inr True"
  "transparent (tile_at example_image 3 3 3) = Inr True"
  by code_simp+

lemma example_mode: "mode example_image \<in> set png_modes"
  by (simp add: example_image_def png_modes_def)

lemma example_saves_ok_list:
  "\<forall>(x, y) \<in> set [(0, 0), (0, 3), (3, 0), (3, 3)].
      \<not> isdir example_world (tile_path ''out'' ''a_GEXD_resized.png'' x y) \<and>
      parent_exists example_world (tile_path ''out'' ''a_GEXD_resized.png'' x y)"
  by (simp add: example_tile_paths example_writable)

lemma example_grid_image:
  "grid_origins (xsize example_image) (ysize example_image) 3
     = Inr [(0, 0), (0, 3), (3, 0), (3, 3)]"
  by (simp add: example_image_def example_grid)

theorem cut_tiles_no_alpha_inactive_witness:
  "image_open example_world (join ''in'' ''a_GEXD_resized.png'') = Inr example_image \<and>
   wf_image example_image \<and>
   mode example_image \<in> set png_modes \<and>
   grid_origins (xsize example_image) (ysize example_image) 3
     = Inr [(0, 0), (0, 3), (3, 0), (3, 3)] \<and>
   (\<exists>w'. cut_tiles False ''in'' ''a_GEXD_resized.png'' ''out'' 3 False example_world = Inr (4, w') \<and>
      map_of (files w') ''out/a_GEXD_resized_0003_0003.png''
        = Some (ImageFile (tile_at example_image 3 3 3)) \<and>
      stdout w' = [''Cutting tiles from a_GEXD_resized.png''])"
proof -
  from cut_tiles_no_alpha_inactive
    [where S = 3 and w = example_world and input_dir = "''in''"
       and filename = "''a_GEXD_resized.png''" and img = example_image
       and os = "[(0, 0), (0, 3), (3, 0), (3, 3)]" and output_dir = "''out''" and debug = False,
     OF _ example_open example_wf example_mode example_grid_image example_saves_ok_list]
  obtain n w' where
    run: "cut_tiles False ''in'' ''a_GEXD_resized.png'' ''out'' 3 False example_world = Inr (n, w')"
    and n: "n = int (length [(0::int, 0::int), (0, 3), (3, 0), (3, 3)])"
    and wr: "\<forall>(x, y) \<in> set [(0, 0), (0, 3), (3, 0), (3, 3)].
               map_of (files w') (tile_path ''out'' ''a_GEXD_resized.png'' x y)
                 = Some (ImageFile (tile_at example_image 3 x y))"
    and out: "stdout w' = stdout example_world @ [''Cutting tiles from '' @ ''a_GEXD_resized.png''] @
             (if False
              then map (\<lambda>(x, y). ''DEBUG: saving tile '' @ tile_name ''a_GEXD_resized.png'' x y @ ''.'' @ tile_format)
                     [(0, 0), (0, 3), (3, 0), (3, 3)]
              else [])"
    by auto
  from n have "n = 4" by simp
  moreover from wr have "map_of (files w') ''out/a_GEXD_resized_0003_0003.png''
        = Some (ImageFile (tile_at example_image 3 3 3))"
    by (simp add: example_tile_paths)
  moreover from out have "stdout w' = [''Cutting tiles from a_GEXD_resized.png'']"
    by (simp add: example_world_def)
  ultimately show ?thesis
    using run example_open example_wf example_mode example_grid_image by blast
qed

lemma example_tile_size_1_saves:
  "cut_tiles False ''in'' ''a_GEXD_resized.png'' ''out'' 1 False example_world = Inl SystemError"
  by code_simp

lemma example_missing_dir_saves:
  "cut_tiles False ''in'' ''a_GEXD_resized.png'' ''gone'' 3 False example_world
     = Inl FileNotFoundError"
  by code_simp

theorem cut_tiles_tile_size_1_counterexample:
  "image_open example_world (join ''in'' ''a_GEXD_resized.png'') = Inr example_image \<and>
   xsize example_image = 4 \<and> ysize example_image = 4 \<and>
   \<lceil>real_of_int 4 / real_of_int 1\<rceil> * \<lceil>real_of_int 4 / real_of_int 1\<rceil> = 16 \<and>
   cut_tiles False ''in'' ''a_GEXD_resized.png'' ''out'' 1 False example_world = Inl SystemError \<and>
   cut_tiles False ''in'' ''a_GEXD_resized.png'' ''gone'' 3 False example_world
     = Inl FileNotFoundError"
  by (simp add: example_open example_tile_size_1_saves example_missing_dir_saves)
     (simp add: example_image_def)

theorem cut_tiles_no_alpha_active_witness:
  "image_open example_world (join ''in'' ''a_GEXD_resized.png'') = Inr example_image \<and>
   wf_image example_image \<and>
   mode example_image \<in> set png_modes \<and>
   grid_origins (xsize example_image) (ysize example_image) 3
     = Inr [(0, 0), (0, 3), (3, 0), (3, 3)] \<and>
   transparent (tile_at example_image 3 0 0) = Inr False \<and>
   transparent (tile_at example_image 3 0 3) = Inr True \<and>
   transparent (tile_at example_image 3 3 0) = Inr True \<and>
   transparent (tile_at example_image 3 3 3) = Inr True \<and>
   (\<exists>w'. cut_tiles False ''in'' ''a_GEXD_resized.png'' ''out'' 3 True example_world = Inr (1, w') \<and>
      map_of (files w') ''out/a_GEXD_resized_0000_0000.png''
        = Some (ImageFile (tile_at example_image 3 0 0)) \<and>
      map_of (files w') ''out/a_GEXD_resized_0003_0003.png'' = None)"
proof -
  from cut_tiles_no_alpha_active
    [where S = 3 and w = example_world and input_dir = "''in''"
       and filename = "''a_GEXD_resized.png''" and img = example_image
       and os = "[(0, 0), (0, 3), (3, 0), (3, 3)]" and output_dir = "''out''" and debug = False,
     OF _ example_open example_wf example_mode example_grid_image example_saves_ok_list]
  obtain n w' where
    run: "cut_tiles False ''in'' ''a_GEXD_resized.png'' ''out'' 3 True example_world = Inr (n, w')"
    and each: "\<forall>(x, y) \<in> set [(0, 0), (0, 3), (3, 0), (3, 3)].
                   transparent (tile_at example_image 3 x y) = Inr False \<and>
                   map_of (files w') (tile_path ''out'' ''a_GEXD_resized.png'' x y)
                     = Some (ImageFile (tile_at example_image 3 x y))
                   \<or>
                   transparent (tile_at example_image 3 x y) = Inr True \<and>
                   map_of (files w') (tile_path ''out'' ''a_GEXD_resized.png'' x y)
                     = map_of (files example_world) (tile_path ''out'' ''a_GEXD_resized.png'' x y)"
    and n: "n = int (length (filter (\<lambda>(x, y). transparent (tile_at example_image 3 x y) = Inr False)
                              [(0, 0), (0, 3), (3, 0), (3, 3)]))"
    by auto
  from n have "n = 1" by (simp add: example_transparent)
  moreover from each have "map_of (files w') ''out/a_GEXD_resized_0000_0000.png''
        = Some (ImageFile (tile_at example_image 3 0 0))"
    by (simp add: example_transparent example_tile_paths)
  moreover from each have "map_of (files w') ''out/a_GEXD_resized_0003_0003.png'' = None"
    by (simp add: example_transparent example_tile_paths example_world_def)
  ultimately show ?thesis
    using run example_open example_wf example_mode example_grid_image example_transparent by blast
qed

lemma example_tile_size_1_classified:
  "cut_tiles False ''in'' ''a_GEXD_resized.png'' ''out'' 1 True example_world = Inl SystemError"
  by code_simp

lemma example_empty_tile:
  "transparent (tile_at example_image 1 0 0) = Inr False"
  by code_simp

lemma example_grid_1:
  "grid_origins 4 4 1 =
     Inr [(0, 0), (0, 1), (0, 2), (0, 3), (1, 0), (1, 1), (1, 2), (1, 3),
          (2, 0), (2, 1), (2, 2), (2, 3), (3, 0), (3, 1), (3, 2), (3, 3)]"
  by code_simp

lemma example_missing_dir_classified:
  "cut_tiles False ''in'' ''a_GEXD_resized.png'' ''gone'' 3 True example_world
     = Inl FileNotFoundError"
  by code_simp

theorem cut_tiles_empty_tile_counterexample:
  "image_open example_world (join ''in'' ''a_GEXD_resized.png'') = Inr example_image \<and>
   grid_origins (xsize example_image) (ysize example_image) 1 =
     Inr [(0, 0), (0, 1), (0, 2), (0, 3), (1, 0), (1, 1), (1, 2), (1, 3),
          (2, 0), (2, 1), (2, 2), (2, 3), (3, 0), (3, 1), (3, 2), (3, 3)] \<and>
   transparent (tile_at example_image 1 0 0) = Inr False \<and>
   cut_tiles False ''in'' ''a_GEXD_resized.png'' ''out'' 1 True example_world = Inl SystemError \<and>
   transparent (tile_at example_image 3 0 0) = Inr False \<and>
   cut_tiles False ''in'' ''a_GEXD_resized.png'' ''gone'' 3 True example_world
     = Inl FileNotFoundError"
  by (simp add: example_open example_tile_size_1_classified example_empty_tile
        example_missing_dir_classified example_transparent)
     (simp add: example_image_def example_grid_1)

text \<open>
  C4, as amended. For every origin \<open>(x, y)\<close> of the grid walk with tile size \<open>S\<close>,
  the crop box is \<open>(x, y, x + S - 1, y + S - 1)\<close>, far edges excluded, and the tile
  cut is always \<open>S - 1\<close> by \<open>S - 1\<close> pixels, not \<open>S\<close> by \<open>S\<close>: an edge tile is
  not clamped to the image, the positions of its box beyond the image hold the zero
  value of the mode. The counterexample is the corner tile of a 4 by 4 image cut with
  tile size 3: it is 2 by 2, where clamping would leave 1 by 1.
\<close>

theorem crop_box_full_size:
  assumes S: "1 \<le> S"
    and os: "grid_origins (xsize img) (ysize img) S = Inr os"
    and xy: "(x, y) \<in> set os"
  shows "crop_box x y S = (x, y, x + S - 1, y + S - 1) \<and>
         (\<exists>tile. crop img (crop_box x y S) = Inr tile \<and>
            mode tile = mode img \<and> xsize tile = S - 1 \<and> ysize tile = S - 1 \<and>
            int (length (pixel_data tile)) = (S - 1) * (S - 1) \<and>
            (\<forall>i j. 0 \<le> i \<and> i < S - 1 \<and> 0 \<le> j \<and> j < S - 1 \<longrightarrow>
               pixel_at tile i j =
                 (if x + i < xsize img \<and> y + j < ysize img
                  then pixel_at img (x + i) (y + j)
                  else zero_pixel (mode img))))"
proof -
  let ?t = "tile_at img S x y"
  from S os xy have nn: "0 \<le> x \<and> 0 \<le> y" by (rule grid_origins_nonneg)
  have px: "pixel_at ?t i j =
                 (if x + i < xsize img \<and> y + j < ysize img
                  then pixel_at img (x + i) (y + j)
                  else zero_pixel (mode img))"
    if "0 \<le> i \<and> i < S - 1 \<and> 0 \<le> j \<and> j < S - 1" for i j
  proof -
    from that S have "pixel_at ?t i j = pixel_at img (x + i) (y + j)"
      unfolding tile_at_def by (intro pixel_at_crop_region) simp_all
    moreover have "pixel_at img (x + i) (y + j) = zero_pixel (mode img)"
      if "\<not> (x + i < xsize img \<and> y + j < ysize img)"
      using that by (auto simp: pixel_at_def)
    ultimately show ?thesis by simp
  qed
  have "crop img (crop_box x y S) = Inr ?t" using S by (rule crop_tile_at)
  with tile_at_fields [OF S, of img x y] px
  have "\<exists>tile. crop img (crop_box x y S) = Inr tile \<and>
            mode tile = mode img \<and> xsize tile = S - 1 \<and> ysize tile = S - 1 \<and>
            int (length (pixel_data tile)) = (S - 1) * (S - 1) \<and>
            (\<forall>i j. 0 \<le> i \<and> i < S - 1 \<and> 0 \<le> j \<and> j < S - 1 \<longrightarrow>
               pixel_at tile i j =
                 (if x + i < xsize img \<and> y + j < ysize img
                  then pixel_at img (x + i) (y + j)
                  else zero_pixel (mode img)))"
    by blast
  then show ?thesis by (simp add: crop_box_def)
qed

lemma example_corner_tile:
  "crop example_image (crop_box 3 3 3)
     = Inr \<lparr> mode = ''L'', xsize = 2, ysize = 2, transparency = None,
             pixel_data = [Scalar 16, Scalar 0, Scalar 0, Scalar 0] \<rparr>"
  by code_simp

theorem crop_box_full_size_witness:
  "grid_origins (xsize example_image) (ysize example_image) 3
     = Inr [(0, 0), (0, 3), (3, 0), (3, 3)] \<and>
   crop_box 3 3 3 = (3, 3, 5, 5) \<and>
   (\<exists>tile. crop example_image (3, 3, 5, 5) = Inr tile \<and> xsize tile = 2 \<and> ysize tile = 2 \<and>
      pixel_at tile 0 0 = Scalar 16 \<and> pixel_at tile 1 0 = Scalar 0 \<and>
      pixel_at tile 0 1 = Scalar 0 \<and> pixel_at tile 1 1 = Scalar 0)"
proof -
  have g: "grid_origins (xsize example_image) (ysize example_image) 3
     = Inr [(0, 0), (0, 3), (3, 0), (3, 3)]"
    by (simp add: example_image_def example_grid)
  have p: "pixel_at example_image 3 3 = Scalar 16" "zero_pixel (mode example_image) = Scalar 0"
    by (simp_all add: pixel_at_def example_image_def zero_pixel_def bands_def)
  from crop_box_full_size [of 3 example_image "[(0, 0), (0, 3), (3, 0), (3, 3)]" 3 3, OF _ g]
  obtain tile where b: "crop_box 3 3 3 = (3, 3, 5, 5)"
    and t: "crop example_image (crop_box 3 3 3) = Inr tile" "xsize tile = 2" "ysize tile = 2"
    and px: "\<forall>i j. 0 \<le> i \<and> i < 3 - 1 \<and> 0 \<le> j \<and> j < 3 - 1 \<longrightarrow>
               pixel_at tile i j =
                 (if 3 + i < xsize example_image \<and> 3 + j < ysize example_image
                  then pixel_at example_image (3 + i) (3 + j)
                  else zero_pixel (mode example_image))"
    by auto
  from px [rule_format, of 0 0] px [rule_format, of 1 0] px [rule_format, of 0 1]
    px [rule_format, of 1 1] p
  have "pixel_at tile 0 0 = Scalar 16 \<and> pixel_at tile 1 0 = Scalar 0 \<and>
      pixel_at tile 0 1 = Scalar 0 \<and> pixel_at tile 1 1 = Scalar 0"
    by (simp add: example_image_def)
  with g b t show ?thesis by auto
qed

theorem crop_not_clamped_counterexample:
  "grid_origins (xsize example_image) (ysize example_image) 3
     = Inr [(0, 0), (0, 3), (3, 0), (3, 3)] \<and>
   crop example_image (crop_box 3 3 3)
     = Inr \<lparr> mode = ''L'', xsize = 2, ysize = 2, transparency = None,
             pixel_data = [Scalar 16, Scalar 0, Scalar 0, Scalar 0] \<rparr> \<and>
   min (3 - 1) (xsize example_image - 3) = 1 \<and>
   min (3 - 1) (ysize example_image - 3) = 1"
  by (simp add: example_corner_tile) (simp add: example_image_def example_grid)

subsection \<open>The conversion step\<close>

lemma py_split_hd:
  "\<exists>ps. py_split sep s = takeWhile (\<lambda>c. c \<noteq> sep) s # ps"
  by (induction s) (auto split: list.splits)

lemma py_split_0_takeWhile: "py_split_0 sep s = takeWhile (\<lambda>c. c \<noteq> sep) s"
  using py_split_hd [of sep s] by (auto simp: py_split_0_def)

lemma py_split_0_absent: "sep \<notin> set s \<Longrightarrow> py_split_0 sep s = s"
  by (auto simp: py_split_0_takeWhile takeWhile_eq_all_conv)

lemma py_split_0_no_sep: "sep \<notin> set (py_split_0 sep s)"
  unfolding py_split_0_takeWhile by (auto dest: set_takeWhileD)

lemma endswith_tif_dot:
  assumes "py_endswith filename ''.tif''"
  shows "CHR ''.'' \<in> set filename"
proof -
  from assms have "drop (length filename - length ''.tif'') filename = ''.tif''"
    unfolding py_endswith_def by blast
  then have "CHR ''.'' \<in> set (drop (length filename - length ''.tif'') filename)" by simp
  then show ?thesis by (rule in_set_dropD)
qed

lemma gexd_suffix: "converted_suffix @ ''.'' @ converted_format = ''_GEXD.png''"
  by (simp add: converted_suffix_def converted_format_def)

lemma join_no_slash:
  assumes "CHR ''/'' \<notin> set (join a b)"
  shows "join a b = b"
proof (cases "py_startswith b ''/''")
  case True
  then show ?thesis by (simp add: join_def)
next
  case False
  show ?thesis
  proof (cases "a = []")
    case True
    with False show ?thesis by (simp add: join_def)
  next
    case a: False
    show ?thesis
    proof (cases "py_endswith a ''/''")
      case True
      then have "last a = CHR ''/''"
        using a by (simp add: py_endswith_def last_conv_nth nth_via_drop)
      with a have "CHR ''/'' \<in> set a" using last_in_set by metis
      with assms False True show ?thesis by (simp add: join_def)
    next
      case False
      with assms \<open>\<not> py_startswith b ''/''\<close> a show ?thesis by (simp add: join_def)
    qed
  qed
qed

text \<open>
  C9. For a file name that ends in \<open>.tif\<close> and holds no comma, the
  already-converted check looks for the whole name, \<open>.tif\<close> included, followed by
  \<open>_GEXD.png\<close>, since the stem is split off at a comma; the converter writes under
  the part before the first dot followed by \<open>_GEXD.png\<close>. The two names differ, no
  output of the converter (for any file, in any directory) is the file the check looks
  for, and unless a file of the checked name exists the conversion is invoked again,
  whether or not the converted output is there.
\<close>

theorem already_converted_check_never_matches:
  assumes tif: "py_endswith filename ''.tif''"
    and nc: "CHR '','' \<notin> set filename"
  shows "gexd_file filename = filename @ ''_GEXD.png'' \<and>
         output_filename filename = takeWhile (\<lambda>c. c \<noteq> CHR ''.'') filename @ ''_GEXD.png'' \<and>
         gexd_file filename \<noteq> output_filename filename \<and>
         (CHR ''/'' \<notin> set filename \<longrightarrow>
            (\<forall>dir g. join dir (output_filename g) \<noteq> gexd_file filename)) \<and>
         (\<forall>ev debug input_dir total n w.
            \<not> isfile w (gexd_file filename) \<longrightarrow>
            process_tif ev debug input_dir total filename (n, w) =
              (case convert_geotiff ev debug input_dir filename input_dir
                      (print_line (''Processing '' @ str_int (n + 1) @ ''/'' @ str_int total) w) of
                 Inl e \<Rightarrow> Inl e
               | Inr (r, w2) \<Rightarrow> Inr (n + 1, w2)))"
proof -
  have g: "gexd_file filename = filename @ ''_GEXD.png''"
    using nc by (simp add: gexd_file_def py_split_0_absent converted_suffix_def converted_format_def)
  have o: "output_filename g = py_split_0 (CHR ''.'') g @ ''_GEXD.png''" for g
    by (simp add: output_filename_def converted_suffix_def converted_format_def)
  have dot: "CHR ''.'' \<in> set filename" using tif by (rule endswith_tif_dot)
  have stem: "py_split_0 (CHR ''.'') g \<noteq> filename" for g
    using dot py_split_0_no_sep [of "CHR ''.''" g] by auto
  have ne: "gexd_file filename \<noteq> output_filename filename"
    using stem [of filename] by (simp add: g o)
  have other: "join dir (output_filename g) \<noteq> gexd_file filename"
    if ns: "CHR ''/'' \<notin> set filename" for dir g
  proof
    assume eq: "join dir (output_filename g) = gexd_file filename"
    from ns have "CHR ''/'' \<notin> set (gexd_file filename)" by (simp add: g)
    with eq have "CHR ''/'' \<notin> set (join dir (output_filename g))" by simp
    then have "join dir (output_filename g) = output_filename g" by (rule join_no_slash)
    with eq have "py_split_0 (CHR ''.'') g = filename" by (simp add: g o)
    with stem show False by blast
  qed
  have run: "process_tif ev debug input_dir total filename (n, w) =
              (case convert_geotiff ev debug input_dir filename input_dir
                      (print_line (''Processing '' @ str_int (n + 1) @ ''/'' @ str_int total) w) of
                 Inl e \<Rightarrow> Inl e
               | Inr (r, w2) \<Rightarrow> Inr (n + 1, w2))"
    if "\<not> isfile w (gexd_file filename)" for ev debug input_dir total n w
    using that tif by (simp add: process_tif_def Let_def)
  from g o [of filename] ne other run show ?thesis
    by (simp add: py_split_0_takeWhile)
qed

lemma str_int_1: "str_int 1 = ''1''" and str_int_2: "str_int 2 = ''2''"
  by (simp_all add: str_int_def str_nat.simps digit_char_def)

lemma silent_convert:
  "convert_geotiff silent_env False ''in'' ''a.tif'' ''in'' w
     = Inr (None, print_line ''Error: no min/max elevation found with gdalinfo! Skipping GeoTIFF!''
                    (print_line ''Converting: a.tif'' w))"
  by (simp add: convert_geotiff_def silent_env_def Let_def match_here_def py_startswith_def)

theorem already_converted_check_never_matches_witness:
  "py_endswith ''a.tif'' ''.tif'' \<and> CHR '','' \<notin> set ''a.tif'' \<and>
   gexd_file ''a.tif'' = ''a.tif_GEXD.png'' \<and>
   output_filename ''a.tif'' = ''a_GEXD.png'' \<and>
   isfile tif_world (join ''in'' ''a_GEXD.png'') \<and>
   \<not> isfile tif_world ''a.tif_GEXD.png'' \<and>
   process_tif silent_env False ''in'' 2 ''a.tif'' (0, tif_world) =
     Inr (1, print_line ''Error: no min/max elevation found with gdalinfo! Skipping GeoTIFF!''
               (print_line ''Converting: a.tif'' (print_line ''Processing 1/2'' tif_world)))"
proof -
  have a: "py_endswith ''a.tif'' ''.tif''" "CHR '','' \<notin> set ''a.tif''"
    by (simp_all add: py_endswith_def)
  have f: "isfile tif_world (join ''in'' ''a_GEXD.png'')" "\<not> isfile tif_world ''a.tif_GEXD.png''"
    by (simp_all add: isfile_def tif_world_def join_def py_startswith_def py_endswith_def)
  note th = already_converted_check_never_matches [OF a]
  from th have n: "gexd_file ''a.tif'' = ''a.tif_GEXD.png''"
    "output_filename ''a.tif'' = ''a_GEXD.png''" by simp_all
  from th f(2) n have "process_tif silent_env False ''in'' 2 ''a.tif'' (0, tif_world) =
              (case convert_geotiff silent_env False ''in'' ''a.tif'' ''in''
                      (print_line (''Processing '' @ str_int (0 + 1) @ ''/'' @ str_int 2) tif_world) of
                 Inl e \<Rightarrow> Inl e
               | Inr (r, w2) \<Rightarrow> Inr (0 + 1, w2))"
    by simp
  then have "process_tif silent_env False ''in'' 2 ''a.tif'' (0, tif_world) =
     Inr (1, print_line ''Error: no min/max elevation found with gdalinfo! Skipping GeoTIFF!''
               (print_line ''Converting: a.tif'' (print_line ''Processing 1/2'' tif_world)))"
    by (simp add: silent_convert str_int_1 str_int_2)
  with a f n show ?thesis by simp
qed

text \<open>
  C7, as amended. When the output of the inspection command holds no match of the
  pattern for the minimum and maximum, or when the two numbers of the match are read
  and the output file of the rescaling command is absent afterwards,
  \<open>convert_geotiff\<close> returns \<open>None\<close> without raising and without writing a file
  itself (the world it leaves is the one the last command left, with one more line
  printed), and the loop of \<open>gextool\<close> goes on with the remaining files. A match
  whose numbers cannot be read is not skipped: the pattern accepts a lone dot, for
  which \<open>float\<close> raises and the loop ends, which is the counterexample to the claim as
  first stated.
\<close>

theorem convert_geotiff_skips:
  "(\<forall>out w2.
      popen_read ev (gdalinfo_cmd (join input_dir filename))
        (print_line (''Converting: '' @ filename) w) = (out, w2) \<and>
      re_search out = None \<longrightarrow>
      convert_geotiff ev debug input_dir filename output_dir w =
        Inr (None,
             print_line ''Error: no min/max elevation found with gdalinfo! Skipping GeoTIFF!'' w2)) \<and>
   (\<forall>out w2 g1 g2 mn mx output2 w5.
      popen_read ev (gdalinfo_cmd (join input_dir filename))
        (print_line (''Converting: '' @ filename) w) = (out, w2) \<and>
      re_search out = Some (g1, g2) \<and>
      floor_float ev g1 = Inr mn \<and> floor_float ev g2 = Inr mx \<and>
      popen_read ev
        (gdal_translate_cmd mn mx (join input_dir filename)
           (join output_dir (output_filename filename)))
        (if debug
         then print_line (''Executing: '' @
                gdal_translate_cmd mn mx (join input_dir filename)
                  (join output_dir (output_filename filename)))
                (print_line (''DEBUG: elevation max: '' @ str_int mx)
                   (print_line (''DEBUG: elevation min: '' @ str_int mn) w2))
         else w2) = (output2, w5) \<and>
      \<not> isfile w5 (join output_dir (output_filename filename)) \<longrightarrow>
      convert_geotiff ev debug input_dir filename output_dir w =
        Inr (None,
             print_line
               ''Error: converted file not found! gdal_translate may have failed to complete!''
               w5)) \<and>
   (\<forall>total n rest w'.
      py_endswith filename ''.tif'' \<and> \<not> isfile w (gexd_file filename) \<and>
      convert_geotiff ev debug input_dir filename input_dir
        (print_line (''Processing '' @ str_int (n + 1) @ ''/'' @ str_int total) w) = Inr (None, w')
      \<longrightarrow>
      for_loop (filename # rest) (process_tif ev debug input_dir total) (n, w) =
        for_loop rest (process_tif ev debug input_dir total) (n + 1, w'))"
proof (intro conjI allI impI)
  fix out w2
  assume "popen_read ev (gdalinfo_cmd (join input_dir filename))
        (print_line (''Converting: '' @ filename) w) = (out, w2) \<and>
      re_search out = None"
  then show "convert_geotiff ev debug input_dir filename output_dir w =
        Inr (None,
             print_line ''Error: no min/max elevation found with gdalinfo! Skipping GeoTIFF!'' w2)"
    by (simp add: convert_geotiff_def Let_def)
next
  fix out w2 g1 g2 mn mx output2 w5
  assume a: "popen_read ev (gdalinfo_cmd (join input_dir filename))
        (print_line (''Converting: '' @ filename) w) = (out, w2) \<and>
      re_search out = Some (g1, g2) \<and>
      floor_float ev g1 = Inr mn \<and> floor_float ev g2 = Inr mx \<and>
      popen_read ev
        (gdal_translate_cmd mn mx (join input_dir filename)
           (join output_dir (output_filename filename)))
        (if debug
         then print_line (''Executing: '' @
                gdal_translate_cmd mn mx (join input_dir filename)
                  (join output_dir (output_filename filename)))
                (print_line (''DEBUG: elevation max: '' @ str_int mx)
                   (print_line (''DEBUG: elevation min: '' @ str_int mn) w2))
         else w2) = (output2, w5) \<and>
      \<not> isfile w5 (join output_dir (output_filename filename))"
  show "convert_geotiff ev debug input_dir filename output_dir w =
        Inr (None,
             print_line
               ''Error: converted file not found! gdal_translate may have failed to complete!''
               w5)"
  proof (cases debug)
    case True
    with a show ?thesis by (simp add: convert_geotiff_def Let_def)
  next
    case False
    with a show ?thesis by (simp add: convert_geotiff_def Let_def)
  qed
next
  fix total n rest w'
  assume "py_endswith filename ''.tif'' \<and> \<not> isfile w (gexd_file filename) \<and>
      convert_geotiff ev debug input_dir filename input_dir
        (print_line (''Processing '' @ str_int (n + 1) @ ''/'' @ str_int total) w) = Inr (None, w')"
  then show "for_loop (filename # rest) (process_tif ev debug input_dir total) (n, w) =
        for_loop rest (process_tif ev debug input_dir total) (n + 1, w')"
    by (simp add: process_tif_def Let_def)
qed

lemma silent_search: "re_search ''ERROR 4: No such file or directory'' = None"
  by (simp add: match_here_def py_startswith_def)

lemma idle_search:
  "re_search ''    Computed Min/Max=12.500,3456.750'' = Some (''12.500'', ''3456.750'')"
  by (simp add: match_here_def py_startswith_def match_number_def is_digit_def)

lemma idle_floor:
  "floor_float idle_env ''12.500'' = Inr 12" "floor_float idle_env ''3456.750'' = Inr 3456"
  by (simp_all add: idle_env_def floor_of_decimal_def is_digit_def nat_of_digits_def digit_value_def)

lemma idle_popen:
  "popen_read idle_env (gdalinfo_cmd p) w = (''    Computed Min/Max=12.500,3456.750'', w)"
  "popen_read idle_env (gdal_translate_cmd mn mx p q) w = ([], w)"
  by (simp_all add: idle_env_def gdalinfo_cmd_def gdal_translate_cmd_def py_startswith_def)

lemma silent_popen:
  "popen_read silent_env cmd w = (''ERROR 4: No such file or directory'', w)"
  by (simp add: silent_env_def)

lemma tif_world_no_output:
  "\<not> isfile tif_world (join ''in'' (output_filename ''b.tif''))"
  "\<not> isfile tif_world (gexd_file ''a.tif'')"
  "\<not> isfile w (gexd_file ''b.tif'') \<longleftrightarrow> \<not> isfile w ''b.tif_GEXD.png''"
  by (simp_all add: isfile_def tif_world_def join_def py_startswith_def py_endswith_def
        output_filename_def gexd_file_def py_split_0_def converted_suffix_def converted_format_def)

theorem convert_geotiff_skips_witness:
  "re_search ''ERROR 4: No such file or directory'' = None \<and>
   convert_geotiff silent_env False ''in'' ''a.tif'' ''in'' tif_world =
     Inr (None, print_line ''Error: no min/max elevation found with gdalinfo! Skipping GeoTIFF!''
                  (print_line ''Converting: a.tif'' tif_world)) \<and>
   re_search ''    Computed Min/Max=12.500,3456.750'' = Some (''12.500'', ''3456.750'') \<and>
   \<not> isfile tif_world (join ''in'' (output_filename ''b.tif'')) \<and>
   convert_geotiff idle_env False ''in'' ''b.tif'' ''in'' tif_world =
     Inr (None,
          print_line ''Error: converted file not found! gdal_translate may have failed to complete!''
            (print_line ''Converting: b.tif'' tif_world)) \<and>
   for_loop [''a.tif'', ''b.tif''] (process_tif silent_env False ''in'' 2) (0, tif_world) =
     for_loop [''b.tif''] (process_tif silent_env False ''in'' 2)
       (1, print_line ''Error: no min/max elevation found with gdalinfo! Skipping GeoTIFF!''
             (print_line ''Converting: a.tif'' (print_line ''Processing 1/2'' tif_world)))"
proof -
  note s = convert_geotiff_skips
    [where ev = silent_env and debug = False and input_dir = "''in''" and output_dir = "''in''"
       and filename = "''a.tif''"]
  note i = convert_geotiff_skips
    [where ev = idle_env and debug = False and input_dir = "''in''" and output_dir = "''in''"
       and filename = "''b.tif''" and w = tif_world]
  have 1: "convert_geotiff silent_env False ''in'' ''a.tif'' ''in'' w =
     Inr (None, print_line ''Error: no min/max elevation found with gdalinfo! Skipping GeoTIFF!''
                  (print_line ''Converting: a.tif'' w))" for w
    using s [of w, THEN conjunct1, rule_format,
        of "''ERROR 4: No such file or directory''" "print_line ''Converting: a.tif'' w"]
    by (simp add: silent_popen silent_search del: re_search.simps)
  have 2: "convert_geotiff idle_env False ''in'' ''b.tif'' ''in'' tif_world =
     Inr (None,
          print_line ''Error: converted file not found! gdal_translate may have failed to complete!''
            (print_line ''Converting: b.tif'' tif_world))"
    using i [THEN conjunct2, THEN conjunct1, rule_format,
        of "''    Computed Min/Max=12.500,3456.750''" "print_line ''Converting: b.tif'' tif_world"
           "''12.500''" "''3456.750''" 12 3456 "[]" "print_line ''Converting: b.tif'' tif_world"]
    by (simp add: idle_popen idle_search idle_floor tif_world_no_output del: re_search.simps)
  have 3: "for_loop [''a.tif'', ''b.tif''] (process_tif silent_env False ''in'' 2) (0, tif_world) =
     for_loop [''b.tif''] (process_tif silent_env False ''in'' 2)
       (1, print_line ''Error: no min/max elevation found with gdalinfo! Skipping GeoTIFF!''
             (print_line ''Converting: a.tif'' (print_line ''Processing 1/2'' tif_world)))"
    using s [of tif_world, THEN conjunct2, THEN conjunct2, rule_format,
        of 0 2 "print_line ''Error: no min/max elevation found with gdalinfo! Skipping GeoTIFF!''
             (print_line ''Converting: a.tif'' (print_line ''Processing 1/2'' tif_world))" "[''b.tif'']"]
    by (simp add: 1 str_int_1 str_int_2 tif_world_no_output py_endswith_def)
  have 4: "\<not> isfile tif_world (join ''in'' (output_filename ''b.tif''))"
    by (rule tif_world_no_output(1))
  from 1 [of tif_world] 2 3 4 silent_search idle_search show ?thesis by simp
qed

lemma dotted_search: "re_search ''Max=.,.'' = Some (''.'', ''.'')"
  by (simp add: match_here_def py_startswith_def match_number_def is_digit_def)

lemma dotted_convert:
  "convert_geotiff dotted_env False ''in'' ''a.tif'' ''in'' w = Inl ValueError"
  by (simp add: convert_geotiff_def dotted_env_def Let_def dotted_search floor_of_decimal_def
        del: re_search.simps)

theorem convert_geotiff_unparseable_counterexample:
  "re_search ''Max=.,.'' = Some (''.'', ''.'') \<and>
   floor_float dotted_env ''.'' = Inl ValueError \<and>
   convert_geotiff dotted_env False ''in'' ''a.tif'' ''in'' tif_world = Inl ValueError \<and>
   for_loop [''a.tif'', ''b.tif''] (process_tif dotted_env False ''in'' 2) (0, tif_world)
     = Inl ValueError"
proof -
  have "floor_float dotted_env ''.'' = Inl ValueError"
    by (simp add: dotted_env_def floor_of_decimal_def)
  moreover have "for_loop [''a.tif'', ''b.tif''] (process_tif dotted_env False ''in'' 2) (0, tif_world)
     = Inl ValueError"
    by (simp add: process_tif_def Let_def dotted_convert tif_world_no_output py_endswith_def)
  ultimately show ?thesis using dotted_search dotted_convert by simp
qed

subsection \<open>The output directory\<close>

lemma mkdir_isdir: "mkdir p w = Inr w' \<Longrightarrow> isdir w' p"
  by (auto simp: mkdir_def isdir_def split: if_splits)

lemma ensure_output_dir_reports_nothing:
  assumes "ensure_output_dir output_dir w = Inr w'"
  shows "isdir w' output_dir \<and>
         (stdout w' = stdout w \<or>
          stdout w' = stdout w @ [''output_dir not found, trying to create it...'',
                                  ''Successfully created output_dir: '' @ output_dir])"
proof (cases "isdir w output_dir")
  case True
  with assms show ?thesis by (simp add: ensure_output_dir_def)
next
  case False
  with assms obtain w2 where
    mk: "mkdir output_dir (print_line ''output_dir not found, trying to create it...'' w) = Inr w2"
    by (auto simp: ensure_output_dir_def Let_def split: sum.splits)
  then have d: "isdir w2 output_dir" by (rule mkdir_isdir)
  from mk have "stdout w2 = stdout w @ [''output_dir not found, trying to create it...'']"
    by (auto simp: mkdir_def split: if_splits)
  with assms False mk d show ?thesis
    by (auto simp: ensure_output_dir_def Let_def)
qed

lemma gextool_mkdir_raises:
  assumes "\<not> isdir w output_dir"
    and "mkdir output_dir
           (print_line ''output_dir not found, trying to create it...''
              (print_line ''Running GEXtool! Your friendly neighborhood Geotiff EXtraction tool.'' w))
         = Inl e"
  shows "gextool ev debug input_dir output_dir tile_size no_alpha skip_tif w = Inl e"
  using assms by (simp add: gextool_def ensure_output_dir_def Let_def)

text \<open>
  C8. The claim is that a run reports an output directory it cannot create and goes on.
  The code does not: \<open>os.mkdir\<close> raises when it cannot create the directory, so the
  run ends there, and whenever \<open>os.mkdir\<close> returns the directory exists, so the lines
  that report the failure are never printed. Here the parent of the output directory is
  missing and \<open>gextool\<close> ends with \<open>FileNotFoundError\<close>.
\<close>

theorem gextool_aborts_when_mkdir_fails:
  "\<not> isdir example_world ''missing/out'' \<and>
   \<not> isdir example_world ''missing'' \<and>
   mkdir ''missing/out'' example_world = Inl FileNotFoundError \<and>
   gextool silent_env False ''in'' ''missing/out'' 3 False True example_world
     = Inl FileNotFoundError"
proof -
  have d: "\<not> isdir example_world ''missing/out''" "\<not> isdir example_world ''missing''"
    by (simp_all add: isdir_def example_world_def)
  have m: "mkdir ''missing/out'' (print_line s (print_line t example_world)) = Inl FileNotFoundError"
    for s t
    by (simp add: mkdir_def isdir_def isfile_def parent_exists_def dirname_def example_world_def)
  have m0: "mkdir ''missing/out'' example_world = Inl FileNotFoundError"
    by (simp add: mkdir_def isdir_def isfile_def parent_exists_def dirname_def example_world_def)
  from gextool_mkdir_raises [OF d(1) m] d m0 show ?thesis by simp
qed

end
